theory Spec2Isabelle
  imports Main "HOL-Library.Word"
begin

unbundle bit_operations_syntax

section \<open>Scalars, errors and array access\<close>

text \<open>
  The engine is \<open>PairHMM<InstructionSetPolicy>\<close> of \<open>simd_pair_hmm.hpp\<close>, instantiated as
  the tests do: scores are \<open>short\<close> (16 bits) and a vector holds eight of them.
  C++ \<open>int\<close> variables (\<open>s\<close>, \<open>i\<close>, \<open>x\<close>, \<open>y\<close>, lengths) are \<open>int\<close>;
  they stay far below 32 bits.  A read or write outside an array, and a write through
  a null buffer, have no defined result in C++; the model returns an error there.
\<close>

type_synonym ScoreType = "16 word"
type_synonym VectorType = "ScoreType list"

datatype error = AssertionFailure | OutOfBounds | NullPointer

definition bnd :: "error + 'a \<Rightarrow> ('a \<Rightarrow> error + 'b) \<Rightarrow> error + 'b" where
  "bnd r f = (case r of Inl e \<Rightarrow> Inl e | Inr v \<Rightarrow> f v)"

definition rd :: "'a list \<Rightarrow> int \<Rightarrow> error + 'a" where
  "rd xs i = (if 0 \<le> i \<and> i < int (length xs) then Inr (xs ! nat i) else Inl OutOfBounds)"

definition wr :: "'a list \<Rightarrow> int \<Rightarrow> 'a \<Rightarrow> error + 'a list" where
  "wr xs i v = (if 0 \<le> i \<and> i < int (length xs) then Inr (xs[nat i := v]) else Inl OutOfBounds)"

text \<open>\<open>char\<close> is signed on the supported targets: a byte widens to a score by sign extension.\<close>

definition short_of_char :: "char \<Rightarrow> ScoreType" where
  "short_of_char c = (let n = (of_char c :: int) in word_of_int (if n < 128 then n else n - 256))"

text \<open>An \<open>int8_t\<close> penalty shifted left by the trace bits, as a score.\<close>

definition lshift_int8 :: "8 word \<Rightarrow> nat \<Rightarrow> ScoreType" where
  "lshift_int8 q k = push_bit k (scast q)"

definition smin :: "ScoreType \<Rightarrow> ScoreType \<Rightarrow> ScoreType" where
  "smin a b = (if b <s a then b else a)"

section \<open>Constants of the class\<close>

definition score_bytes :: nat where "score_bytes = 2"
definition band_size :: nat where "band_size = 8"
definition infinity :: ScoreType where "infinity = 0x7800"
definition trace_bits :: nat where "trace_bits = 2"
definition n_score :: ScoreType where "n_score = push_bit trace_bits 2"
definition max_n_quality :: ScoreType where "max_n_quality = 64"
definition bitmask :: int where "bitmask = 0x8000"
definition match_label :: nat where "match_label = 0"
definition insert_label :: nat where "insert_label = 1"
definition delete_label :: nat where "delete_label = 3"
definition gap_label :: char where "gap_label = CHR ''-''"

section \<open>Vector backend\<close>

text \<open>
  Modelled from the spec: the instruction-set policy class (the \<open>InstructionSetPolicy\<close>
  template argument with \<open>vectorise\<close>, \<open>_extract\<close>, \<open>_add\<close>, \<open>_left_shift\<close>, ...) is not
  among the sources.  Section 4.1 of the spec fixes it: a register of \<open>B\<close> lanes of signed
  16-bit integers, lane-wise \<open>add\<close> (two's complement), \<open>and\<close>, \<open>andnot\<close>, \<open>or\<close>, \<open>cmpeq\<close>
  (all ones on equality), signed \<open>min\<close>; \<open>_left_shift<k>\<close> and \<open>_right_shift<k>\<close> shift the
  whole register by \<open>k\<close> bytes, zero filled; \<open>_left_shift_words<k>\<close> shifts each lane by
  \<open>k\<close> bits.  A vector is the list of its lanes, lane 0 first, and its bytes are those of
  the lanes in little-endian order.  The spec lists lanes from the highest down
  (\<open>zero_with_last\<close>: \<open>0,0,\<dots>,x\<close>; \<open>load_reverse\<close>: \<open>ptr[B-1],\<dots>,ptr[0]\<close>), so lane 0
  receives \<open>x\<close> and \<open>ptr[0]\<close>.  The spec gives lane access no meaning outside lanes
  \<open>0..B-1\<close>, and the last iteration of the main loop extracts lane \<open>B\<close>: the lane index is
  taken modulo \<open>B\<close>, the low bits the extract instruction decodes.
\<close>

definition vectorise :: "ScoreType \<Rightarrow> VectorType" where
  "vectorise x = replicate band_size x"

definition vectorise_zero_set_last :: "ScoreType \<Rightarrow> VectorType" where
  "vectorise_zero_set_last x = x # replicate (band_size - 1) 0"

definition vectorise_reverse :: "string \<Rightarrow> error + VectorType" where
  "vectorise_reverse src =
     (if band_size \<le> length src then Inr (map short_of_char (take band_size src))
      else Inl OutOfBounds)"

definition v_extract :: "VectorType \<Rightarrow> int \<Rightarrow> ScoreType" where
  "v_extract v n = v ! nat (n mod int band_size)"

definition v_insert :: "VectorType \<Rightarrow> ScoreType \<Rightarrow> int \<Rightarrow> VectorType" where
  "v_insert v x n = v[nat (n mod int band_size) := x]"

definition v_add :: "VectorType \<Rightarrow> VectorType \<Rightarrow> VectorType" where
  "v_add a b = map2 (+) a b"

definition v_and :: "VectorType \<Rightarrow> VectorType \<Rightarrow> VectorType" where
  "v_and a b = map2 (AND) a b"

definition v_andnot :: "VectorType \<Rightarrow> VectorType \<Rightarrow> VectorType" where
  "v_andnot a b = map2 (\<lambda>x y. NOT x AND y) a b"

definition v_or :: "VectorType \<Rightarrow> VectorType \<Rightarrow> VectorType" where
  "v_or a b = map2 (OR) a b"

definition v_cmpeq :: "VectorType \<Rightarrow> VectorType \<Rightarrow> VectorType" where
  "v_cmpeq a b = map2 (\<lambda>x y. if x = y then - 1 else 0) a b"

definition v_min :: "VectorType \<Rightarrow> VectorType \<Rightarrow> VectorType" where
  "v_min a b = map2 smin a b"

definition to_bytes :: "VectorType \<Rightarrow> 8 word list" where
  "to_bytes v = concat (map (\<lambda>w. [ucast w, ucast (drop_bit 8 w)]) v)"

fun from_bytes :: "8 word list \<Rightarrow> VectorType" where
  "from_bytes (lo # hi # bs) = (ucast lo OR push_bit 8 (ucast hi)) # from_bytes bs"
| "from_bytes bs = []"

definition v_left_shift :: "nat \<Rightarrow> VectorType \<Rightarrow> VectorType" where
  "v_left_shift k v = from_bytes (take (2 * length v) (replicate k 0 @ to_bytes v))"

definition v_right_shift :: "nat \<Rightarrow> VectorType \<Rightarrow> VectorType" where
  "v_right_shift k v = from_bytes (drop k (to_bytes v) @ replicate (min k (2 * length v)) 0)"

definition v_left_shift_words :: "nat \<Rightarrow> VectorType \<Rightarrow> VectorType" where
  "v_left_shift_words k v = map (push_bit k) v"

text \<open>
  The gap penalties are template arguments: a pointer to one \<open>int8_t\<close> per truth position,
  or one scalar for all positions.
\<close>

datatype penalty = Scalar ScoreType | PerPosition "8 word list"

definition vectorise_reverse_lshift :: "penalty \<Rightarrow> nat \<Rightarrow> error + VectorType" where
  "vectorise_reverse_lshift p k =
     (case p of
        Scalar x \<Rightarrow> Inr (vectorise (push_bit k x))
      | PerPosition src \<Rightarrow>
          if band_size \<le> length src then Inr (map (\<lambda>q. lshift_int8 q k) (take band_size src))
          else Inl OutOfBounds)"

definition update_gap_penalty :: "nat \<Rightarrow> VectorType \<Rightarrow> penalty \<Rightarrow> int \<Rightarrow> error + VectorType" where
  "update_gap_penalty k current p gap_idx =
     (case p of
        Scalar x \<Rightarrow> Inr current
      | PerPosition src \<Rightarrow>
          bnd (rd src gap_idx) (\<lambda>q.
            Inr (v_insert (v_right_shift score_bytes current) (lshift_int8 q k) (int band_size - 1))))"

section \<open>The band recurrence\<close>

record align_input =
  truth :: string
  target :: string
  qualities :: "8 word list"
  truth_len :: int
  target_len :: int
  gap_open :: penalty
  gap_extend :: penalty
  nuc_prior :: ScoreType

record band =
  m1 :: VectorType
  i1 :: VectorType
  d1 :: VectorType
  m2 :: VectorType
  i2 :: VectorType
  d2 :: VectorType
  initmask :: VectorType
  initmask2 :: VectorType
  truthwin :: VectorType
  targetwin :: VectorType
  qualitieswin :: VectorType
  gap_open_win :: VectorType
  gap_extend_win :: VectorType
  truthnqual :: VectorType
  minscore :: ScoreType

definition shape_ok :: "align_input \<Rightarrow> bool" where
  "shape_ok inp \<longleftrightarrow>
     truth_len inp > int band_size \<and> truth_len inp = target_len inp + 2 * int band_size - 1"

definition nuc_prior_vec :: "align_input \<Rightarrow> VectorType" where
  "nuc_prior_vec inp = vectorise (push_bit trace_bits (nuc_prior inp))"

text \<open>The declarations before the loop, the same in both overloads.\<close>

definition init_band :: "align_input \<Rightarrow> error + band" where
  "init_band inp =
     bnd (vectorise_reverse (truth inp)) (\<lambda>tw.
     bnd (vectorise_reverse_lshift (gap_open inp) trace_bits) (\<lambda>go.
     bnd (vectorise_reverse_lshift (gap_extend inp) trace_bits) (\<lambda>ge.
       Inr \<lparr> m1 = vectorise infinity, i1 = vectorise infinity, d1 = vectorise infinity,
             m2 = vectorise infinity, i2 = vectorise infinity, d2 = vectorise infinity,
             initmask = vectorise_zero_set_last (- 1),
             initmask2 = vectorise_zero_set_last (word_of_int (- bitmask)),
             truthwin = tw,
             targetwin = vectorise infinity,
             qualitieswin = vectorise (push_bit trace_bits max_n_quality),
             gap_open_win = go,
             gap_extend_win = ge,
             truthnqual = v_add (v_and (v_cmpeq tw (vectorise (short_of_char CHR ''N'')))
                                       (vectorise (n_score - infinity)))
                                (vectorise infinity),
             minscore = infinity \<rparr>)))"

text \<open>The target window and the quality window move on by one base (start of the loop body).\<close>

definition advance_target ::
  "align_input \<Rightarrow> int \<Rightarrow> 'a band_scheme \<Rightarrow> error + 'a band_scheme" where
  "advance_target inp s st =
     (let tw = v_left_shift score_bytes (targetwin st);
          qw = v_left_shift score_bytes (qualitieswin st)
      in if s div 2 < target_len inp
         then bnd (rd (target inp) (s div 2)) (\<lambda>c.
              bnd (rd (qualities inp) (s div 2)) (\<lambda>q.
                Inr (st\<lparr> targetwin := v_insert tw (short_of_char c) 0,
                         qualitieswin := v_insert qw (lshift_int8 q trace_bits) 0 \<rparr>)))
         else Inr (st\<lparr> targetwin := v_insert tw (short_of_char CHR ''0'') 0,
                       qualitieswin := v_insert qw (push_bit trace_bits max_n_quality) 0 \<rparr>))"

text \<open>The truth window, its N-cap vector, the gap windows and the init masks move on
  (start of the odd half step); the shift count of the gap update is the template argument
  the overload passes.\<close>

definition advance_truth ::
  "align_input \<Rightarrow> nat \<Rightarrow> int \<Rightarrow> 'a band_scheme \<Rightarrow> error + 'a band_scheme" where
  "advance_truth inp k s st =
     (let pos = int band_size + s div 2;
          pos_in_range = pos < truth_len inp
      in bnd (if pos_in_range then rd (truth inp) pos else Inr CHR ''N'') (\<lambda>base.
         let gap_idx = (if pos_in_range then pos else truth_len inp - 1)
         in bnd (update_gap_penalty k (gap_open_win st) (gap_open inp) gap_idx) (\<lambda>go.
            bnd (update_gap_penalty k (gap_extend_win st) (gap_extend inp) gap_idx) (\<lambda>ge.
              Inr (st\<lparr> truthwin := v_insert (v_right_shift score_bytes (truthwin st))
                                              (short_of_char base) (int band_size - 1),
                       truthnqual := v_insert (v_right_shift score_bytes (truthnqual st))
                                              (if base = CHR ''N'' then n_score else infinity)
                                              (int band_size - 1),
                       gap_open_win := go,
                       gap_extend_win := ge,
                       initmask := v_left_shift score_bytes (initmask st),
                       initmask2 := v_left_shift score_bytes (initmask2 st) \<rparr>)))))"

text \<open>The emission term added to a match vector.\<close>

definition emission :: "'a band_scheme \<Rightarrow> VectorType" where
  "emission st =
     v_min (v_andnot (v_cmpeq (targetwin st) (truthwin st)) (qualitieswin st)) (truthnqual st)"

subsection \<open>Score-only overload\<close>

definition even_half :: "align_input \<Rightarrow> int \<Rightarrow> band \<Rightarrow> band" where
  "even_half inp s st =
     (let m1a = v_or (initmask2 st) (v_andnot (initmask st) (m1 st));
          m2a = v_or (initmask2 st) (v_andnot (initmask st) (m2 st));
          m1b = v_min m1a (v_min (i1 st) (d1 st));
          ms = (if s div 2 \<ge> target_len inp
                then smin (v_extract m1b (max 0 (s div 2 - target_len inp))) (minscore st)
                else minscore st);
          m1c = v_add m1b (emission st);
          d1a = v_min (v_add (d2 st) (gap_extend_win st))
                      (v_add (v_min m2a (i2 st)) (v_right_shift score_bytes (gap_open_win st)));
          d1b = v_insert (v_left_shift score_bytes d1a) infinity 0;
          i1a = v_add (v_min (v_add (i2 st) (gap_extend_win st)) (v_add m2a (gap_open_win st)))
                      (nuc_prior_vec inp)
      in st\<lparr> m1 := m1c, m2 := m2a, d1 := d1b, i1 := i1a, minscore := ms \<rparr>)"

definition odd_half :: "align_input \<Rightarrow> int \<Rightarrow> band \<Rightarrow> band" where
  "odd_half inp s st =
     (let m2b = v_min (m2 st) (v_min (i2 st) (d2 st));
          ms = (if s div 2 \<ge> target_len inp
                then smin (v_extract m2b (s div 2 - target_len inp)) (minscore st)
                else minscore st);
          m2c = v_add m2b (emission st);
          d2a = v_min (v_add (d1 st) (gap_extend_win st))
                      (v_add (v_min (m1 st) (i1 st)) (gap_open_win st));
          i2a = v_insert (v_add (v_min (v_add (v_right_shift score_bytes (i1 st)) (gap_extend_win st))
                                       (v_add (v_right_shift score_bytes (m1 st)) (gap_open_win st)))
                                (nuc_prior_vec inp))
                         infinity (int band_size - 1)
      in st\<lparr> m2 := m2c, d2 := d2a, i2 := i2a, minscore := ms \<rparr>)"

definition loop_body :: "align_input \<Rightarrow> int \<Rightarrow> band \<Rightarrow> error + band" where
  "loop_body inp s st =
     bnd (advance_target inp s st) (\<lambda>st1.
     bnd (advance_truth inp score_bytes s (even_half inp s st1)) (\<lambda>st2.
       Inr (odd_half inp s st2)))"

function main_loop :: "align_input \<Rightarrow> int \<Rightarrow> band \<Rightarrow> error + band" where
  "main_loop inp s st =
     (if s \<le> 2 * (target_len inp + int band_size)
      then (case loop_body inp s st of
              Inl e \<Rightarrow> Inl e
            | Inr st' \<Rightarrow> main_loop inp (s + 2) st')
      else Inr st)"
  by pat_completeness auto
termination
  by (relation "measure (\<lambda>(inp, s, st). nat (2 * (target_len inp + int band_size) + 2 - s))") auto

definition final_score :: "ScoreType \<Rightarrow> int" where
  "final_score ms = (sint ms + bitmask) div 2 ^ trace_bits"

text \<open>
  The first statement of both overloads is \<open>assert(truth_len > band_size && \<dots>)\<close>, the
  macro of \<open><cassert>\<close>: it stops the program when the condition is false, and it expands
  to nothing when the translation unit is compiled with \<open>NDEBUG\<close> defined. Whether the build
  defines \<open>NDEBUG\<close> is not in the sources, so it is a parameter of both overloads:
  \<open>ndebug = False\<close> is a build that keeps assertions.
\<close>

definition align :: "bool \<Rightarrow> align_input \<Rightarrow> error + int" where
  "align ndebug inp =
     (if \<not> ndebug \<and> \<not> shape_ok inp then Inl AssertionFailure
      else bnd (init_band inp) (\<lambda>st0.
           bnd (main_loop inp 0 st0) (\<lambda>st.
             Inr (final_score (minscore st)))))"

subsection \<open>Alignment overload\<close>

record traced_band = band +
  backpointers :: "VectorType list"
  minscoreidx :: int

definition three :: VectorType where
  "three = vectorise 3"

text \<open>The vector stored in \<open>_backpointers\<close> for the state vectors \<open>m\<close>, \<open>i\<close>, \<open>d\<close>.\<close>

definition pack_labels :: "VectorType \<Rightarrow> VectorType \<Rightarrow> VectorType \<Rightarrow> VectorType" where
  "pack_labels m i d =
     v_or (v_or (v_and three m) (v_left_shift_words (2 * insert_label) (v_and three i)))
          (v_left_shift_words (2 * delete_label) (v_and three d))"

text \<open>The three assignments under the comment \<open>set state labels\<close>.\<close>

definition label_m :: "VectorType \<Rightarrow> VectorType" where
  "label_m m = v_andnot three m"

definition label_i :: "VectorType \<Rightarrow> VectorType" where
  "label_i i = v_or (v_andnot three i) (v_right_shift 1 three)"

definition label_d :: "VectorType \<Rightarrow> VectorType" where
  "label_d d = v_or (v_andnot three d) three"

definition even_half_tb :: "align_input \<Rightarrow> int \<Rightarrow> traced_band \<Rightarrow> error + traced_band" where
  "even_half_tb inp s st =
     (let m1a = v_or (initmask2 st) (v_andnot (initmask st) (m1 st));
          m2a = v_or (initmask2 st) (v_andnot (initmask st) (m2 st));
          m1b = v_min m1a (v_min (i1 st) (d1 st));
          cur_score = v_extract m1b (s div 2 - target_len inp);
          better = (s div 2 \<ge> target_len inp \<and> cur_score <s minscore st);
          m1c = v_add m1b (emission st);
          d1a = v_min (v_add (d2 st) (gap_extend_win st))
                      (v_add (v_min m2a (i2 st)) (v_right_shift score_bytes (gap_open_win st)));
          d1b = v_insert (v_left_shift score_bytes d1a) infinity 0;
          i1a = v_add (v_min (v_add (i2 st) (gap_extend_win st)) (v_add m2a (gap_open_win st)))
                      (nuc_prior_vec inp)
      in bnd (wr (backpointers st) s (pack_labels m1c i1a d1b)) (\<lambda>bps.
           Inr (st\<lparr> m1 := label_m m1c, i1 := label_i i1a, d1 := label_d d1b, m2 := m2a,
                    minscore := (if better then cur_score else minscore st),
                    backpointers := bps,
                    minscoreidx := (if better then s else minscoreidx st) \<rparr>)))"

definition odd_half_tb :: "align_input \<Rightarrow> int \<Rightarrow> traced_band \<Rightarrow> error + traced_band" where
  "odd_half_tb inp s st =
     (let m2b = v_min (m2 st) (v_min (i2 st) (d2 st));
          cur_score = v_extract m2b (s div 2 - target_len inp);
          better = (s div 2 \<ge> target_len inp \<and> cur_score <s minscore st);
          m2c = v_add m2b (emission st);
          d2a = v_min (v_add (d1 st) (gap_extend_win st))
                      (v_add (v_min (m1 st) (i1 st)) (gap_open_win st));
          i2a = v_insert (v_add (v_min (v_add (v_right_shift score_bytes (i1 st)) (gap_extend_win st))
                                       (v_add (v_right_shift score_bytes (m1 st)) (gap_open_win st)))
                                (nuc_prior_vec inp))
                         infinity (int band_size - 1)
      in bnd (wr (backpointers st) (s + 1) (pack_labels m2c i2a d2a)) (\<lambda>bps.
           Inr (st\<lparr> m2 := label_m m2c, i2 := label_i i2a, d2 := label_d d2a,
                    minscore := (if better then cur_score else minscore st),
                    backpointers := bps,
                    minscoreidx := (if better then s + 1 else minscoreidx st) \<rparr>)))"

definition loop_body_tb :: "align_input \<Rightarrow> int \<Rightarrow> traced_band \<Rightarrow> error + traced_band" where
  "loop_body_tb inp s st =
     bnd (advance_target inp s st) (\<lambda>st1.
     bnd (even_half_tb inp s st1) (\<lambda>st2.
     bnd (advance_truth inp trace_bits s st2) (\<lambda>st3.
       odd_half_tb inp s st3)))"

function main_loop_tb :: "align_input \<Rightarrow> int \<Rightarrow> traced_band \<Rightarrow> error + traced_band" where
  "main_loop_tb inp s st =
     (if s \<le> 2 * (target_len inp + int band_size)
      then (case loop_body_tb inp s st of
              Inl e \<Rightarrow> Inl e
            | Inr st' \<Rightarrow> main_loop_tb inp (s + 2) st')
      else Inr st)"
  by pat_completeness auto
termination
  by (relation "measure (\<lambda>(inp, s, st). nat (2 * (target_len inp + int band_size) + 2 - s))") auto

subsection \<open>Reconstruction of the alignment\<close>

text \<open>A caller-provided character buffer: \<open>None\<close> is the null pointer, \<open>Some b\<close> a buffer
  whose capacity is the length of \<open>b\<close>.\<close>

type_synonym buffer = "string option"

definition rd_buf :: "buffer \<Rightarrow> int \<Rightarrow> error + char" where
  "rd_buf b i = (case b of None \<Rightarrow> Inl NullPointer | Some cs \<Rightarrow> rd cs i)"

definition wr_buf :: "buffer \<Rightarrow> int \<Rightarrow> char \<Rightarrow> error + buffer" where
  "wr_buf b i c =
     (case b of None \<Rightarrow> Inl NullPointer
      | Some cs \<Rightarrow> bnd (wr cs i c) (\<lambda>cs'. Inr (Some cs')))"

record walk =
  w_s :: int
  w_i :: int
  w_x :: int
  w_y :: int
  w_alnidx :: int
  w_state :: nat
  w_align1 :: buffer
  w_align2 :: buffer

text \<open>The back-pointer buffer read through a \<open>short*\<close>: vector \<open>s\<close>, lane \<open>i\<close> is word
  \<open>s * band_size + i\<close> of the flattened buffer.\<close>

definition bp_word :: "ScoreType list \<Rightarrow> int \<Rightarrow> int \<Rightarrow> error + ScoreType" where
  "bp_word flat s i = rd flat (s * int band_size + i)"

definition label_at :: "ScoreType \<Rightarrow> nat \<Rightarrow> nat" where
  "label_at w state = unat (signed_drop_bit (2 * state) w AND 3)"

text \<open>One iteration of the \<open>while (y > 0)\<close> loop, after its overflow check.\<close>

definition walk_step :: "string \<Rightarrow> string \<Rightarrow> ScoreType list \<Rightarrow> walk \<Rightarrow> error + walk" where
  "walk_step tr tg flat w =
     bnd (bp_word flat (w_s w) (w_i w)) (\<lambda>bp.
       let new_state = label_at bp (w_state w) in
       if w_state w = match_label then
         bnd (rd tr (w_x w - 1)) (\<lambda>c1.
         bnd (wr_buf (w_align1 w) (w_alnidx w) c1) (\<lambda>a1.
         bnd (rd tg (w_y w - 1)) (\<lambda>c2.
         bnd (wr_buf (w_align2 w) (w_alnidx w) c2) (\<lambda>a2.
           Inr (w\<lparr> w_s := w_s w - 2, w_x := w_x w - 1, w_y := w_y w - 1,
                    w_alnidx := w_alnidx w + 1, w_state := new_state,
                    w_align1 := a1, w_align2 := a2 \<rparr>)))))
       else if w_state w = insert_label then
         bnd (wr_buf (w_align1 w) (w_alnidx w) gap_label) (\<lambda>a1.
         bnd (rd tg (w_y w - 1)) (\<lambda>c2.
         bnd (wr_buf (w_align2 w) (w_alnidx w) c2) (\<lambda>a2.
           Inr (w\<lparr> w_i := w_i w + w_s w mod 2, w_s := w_s w - 1, w_y := w_y w - 1,
                    w_alnidx := w_alnidx w + 1, w_state := new_state,
                    w_align1 := a1, w_align2 := a2 \<rparr>))))
       else
         bnd (rd tr (w_x w - 1)) (\<lambda>c1.
         bnd (wr_buf (w_align1 w) (w_alnidx w) c1) (\<lambda>a1.
         bnd (wr_buf (w_align2 w) (w_alnidx w) gap_label) (\<lambda>a2.
           Inr (w\<lparr> w_s := w_s w - 1, w_i := w_i w - (w_s w - 1) mod 2, w_x := w_x w - 1,
                    w_alnidx := w_alnidx w + 1, w_state := new_state,
                    w_align1 := a1, w_align2 := a2 \<rparr>)))))"

datatype walk_end = Overflowed walk | Walked walk

function walk_loop :: "string \<Rightarrow> string \<Rightarrow> ScoreType list \<Rightarrow> walk \<Rightarrow> error + walk_end" where
  "walk_loop tr tg flat w =
     (if w_y w > 0 then
        if w_s w < 0 \<or> w_i w < 0 then Inr (Overflowed w)
        else (case walk_step tr tg flat w of
                Inl e \<Rightarrow> Inl e
              | Inr w' \<Rightarrow> walk_loop tr tg flat w')
      else Inr (Walked w))"
  by pat_completeness auto
termination
  by (relation "measure (\<lambda>(tr, tg, flat, w). nat (w_s w + 1))")
     (auto simp: walk_step_def bnd_def Let_def split: sum.splits if_splits)

text \<open>The same loop with a bound on the number of loop tests it may make:
  \<open>None\<close> when the bound is used up before the loop has left.\<close>

fun walk_fuel ::
  "nat \<Rightarrow> string \<Rightarrow> string \<Rightarrow> ScoreType list \<Rightarrow> walk \<Rightarrow> (error + walk_end) option" where
  "walk_fuel 0 tr tg flat w = None"
| "walk_fuel (Suc n) tr tg flat w =
     (if w_y w > 0 then
        if w_s w < 0 \<or> w_i w < 0 then Some (Inr (Overflowed w))
        else (case walk_step tr tg flat w of
                Inl e \<Rightarrow> Some (Inl e)
              | Inr w' \<Rightarrow> walk_fuel n tr tg flat w')
      else Some (Inr (Walked w)))"

text \<open>The loop that reverses both buffers in place; \<open>x\<close> and \<open>y\<close> are its temporaries.\<close>

function reverse_loop :: "int \<Rightarrow> int \<Rightarrow> buffer \<Rightarrow> buffer \<Rightarrow> error + buffer \<times> buffer" where
  "reverse_loop i j a1 a2 =
     (if i < j then
        bnd (rd_buf a1 i) (\<lambda>x.
        bnd (rd_buf a2 i) (\<lambda>y.
        bnd (rd_buf a1 j) (\<lambda>c1.
        bnd (wr_buf a1 i c1) (\<lambda>a1'.
        bnd (rd_buf a2 j) (\<lambda>c2.
        bnd (wr_buf a2 i c2) (\<lambda>a2'.
        bnd (wr_buf a1' j x) (\<lambda>a1''.
        bnd (wr_buf a2' j y) (\<lambda>a2''.
          reverse_loop (i + 1) (j - 1) a1'' a2''))))))))
      else Inr (a1, a2))"
  by pat_completeness auto
termination
  by (relation "measure (\<lambda>(i, j, a1, a2). nat (j - i))") auto

record alignment =
  score :: int
  first_pos :: int
  align1 :: buffer
  align2 :: buffer

definition overflow_result :: "buffer \<Rightarrow> buffer \<Rightarrow> alignment" where
  "overflow_result a1 a2 = \<lparr> score = - 1, first_pos = - 1, align1 = a1, align2 = a2 \<rparr>"

text \<open>The variables of the walk as the code sets them before the \<open>while\<close> loop:
  \<open>s = minscoreidx\<close>, \<open>i = s / 2 - target_len\<close>, \<open>y = target_len\<close>, \<open>x = s - y\<close>,
  the first state read from the back pointer \<open>bp\<close> at \<open>(s, i)\<close>, then \<open>s -= 2\<close>.\<close>

definition walk_start :: "align_input \<Rightarrow> int \<Rightarrow> ScoreType \<Rightarrow> buffer \<Rightarrow> buffer \<Rightarrow> walk" where
  "walk_start inp msi bp a1 a2 =
     \<lparr> w_s = msi - 2, w_i = msi div 2 - target_len inp,
       w_x = msi - target_len inp, w_y = target_len inp, w_alnidx = 0,
       w_state = label_at bp match_label, w_align1 = a1, w_align2 = a2 \<rparr>"

text \<open>After the walk: the overflow return, or the terminators, \<open>first_pos\<close>, the reversal
  and the score.\<close>

definition finish :: "ScoreType \<Rightarrow> walk_end \<Rightarrow> error + alignment" where
  "finish ms r =
     (case r of
        Overflowed w \<Rightarrow> Inr (overflow_result (w_align1 w) (w_align2 w))
      | Walked w \<Rightarrow>
          bnd (wr_buf (w_align1 w) (w_alnidx w) (CHR 0x00)) (\<lambda>b1.
          bnd (wr_buf (w_align2 w) (w_alnidx w) (CHR 0x00)) (\<lambda>b2.
          bnd (reverse_loop 0 (w_alnidx w - 1) b1 b2) (\<lambda>(c1, c2).
            Inr \<lparr> score = final_score ms, first_pos = w_x w, align1 = c1, align2 = c2 \<rparr>))))"

text \<open>Everything after the main loop of the alignment overload.\<close>

definition reconstruct ::
  "align_input \<Rightarrow> ScoreType \<Rightarrow> int \<Rightarrow> VectorType list \<Rightarrow> buffer \<Rightarrow> buffer \<Rightarrow> error + alignment" where
  "reconstruct inp ms msi bps a1 a2 =
     (if msi < 0 then Inr (overflow_result a1 a2)
      else
        let s = msi;
            i = s div 2 - target_len inp;
            flat = concat bps;
            p = s * int band_size + i
        in if p < 0 \<or> p \<ge> int (length flat) then Inr (overflow_result a1 a2)
           else bnd (bp_word flat s i) (\<lambda>bp.
                bnd (walk_loop (truth inp) (target inp) flat (walk_start inp msi bp a1 a2))
                    (finish ms)))"

definition init_traced :: "align_input \<Rightarrow> band \<Rightarrow> traced_band" where
  "init_traced inp st =
     band.extend st
       \<lparr> backpointers = replicate (nat (2 * (truth_len inp + int band_size))) (vectorise 0),
         minscoreidx = - 1 \<rparr>"

definition align_alignment ::
  "bool \<Rightarrow> align_input \<Rightarrow> buffer \<Rightarrow> buffer \<Rightarrow> error + alignment" where
  "align_alignment ndebug inp a1 a2 =
     (if \<not> ndebug \<and> \<not> shape_ok inp then Inl AssertionFailure
      else bnd (init_band inp) (\<lambda>st0.
           bnd (main_loop_tb inp 0 (init_traced inp st0)) (\<lambda>st.
             reconstruct inp (minscore st) (minscoreidx st) (backpointers st) a1 a2)))"

section \<open>Notions the claims are stated with\<close>

text \<open>The C string held in a buffer, the way the tests read the result.\<close>

definition c_str :: "string \<Rightarrow> string" where
  "c_str b = takeWhile (\<lambda>c. c \<noteq> CHR 0x00) b"

definition strip_gaps :: "string \<Rightarrow> string" where
  "strip_gaps cs = filter (\<lambda>c. c \<noteq> gap_label) cs"


text \<open>What the walk has written into one buffer so far: \<open>e\<close> are the characters emitted
  into the buffer \<open>b\<close> (newest last), the rest of the buffer is untouched, and without the
  gaps they spell the sequence \<open>sq\<close> from position \<open>p\<close> up to \<open>p0\<close>, backwards (when
  \<open>sq\<close> itself holds no gap character).\<close>

definition emitted_inv ::
  "string \<Rightarrow> string \<Rightarrow> int \<Rightarrow> string \<Rightarrow> int \<Rightarrow> int \<Rightarrow> buffer \<Rightarrow> bool" where
  "emitted_inv sq b p0 e p n a \<longleftrightarrow>
     int (length e) = n \<and> length e \<le> length b \<and>
     a = Some (e @ drop (length e) b) \<and>
     set e \<subseteq> insert gap_label (set sq) \<and>
     p \<le> p0 \<and> (p < p0 \<longrightarrow> 0 \<le> p \<and> p0 \<le> int (length sq)) \<and>
     (gap_label \<notin> set sq \<longrightarrow> strip_gaps e = rev (drop (nat p) (take (nat p0) sq)))"

definition walk_inv ::
  "string \<Rightarrow> string \<Rightarrow> string \<Rightarrow> string \<Rightarrow> int \<Rightarrow> int \<Rightarrow> string \<Rightarrow> string \<Rightarrow> walk \<Rightarrow> bool" where
  "walk_inv tr tg b1 b2 x0 y0 e1 e2 w \<longleftrightarrow>
     emitted_inv tr b1 x0 e1 (w_x w) (w_alnidx w) (w_align1 w) \<and>
     emitted_inv tg b2 y0 e2 (w_y w) (w_alnidx w) (w_align2 w)"

text \<open>Where the main loop of the alignment overload can leave \<open>minscoreidx\<close>: untouched,
  or on one of the half steps that look at the exit column.\<close>

definition idx_ok :: "align_input \<Rightarrow> int \<Rightarrow> bool" where
  "idx_ok inp m \<longleftrightarrow>
     m < 0 \<or> 2 * target_len inp \<le> m \<and> m \<le> 2 * (target_len inp + int band_size) + 1"

text \<open>The relation between \<open>_truthnqual\<close> and the truth window that the code keeps:
  \<open>n_score\<close> in the lanes whose truth base is \<open>N\<close>, \<open>infinity\<close> in all others.\<close>

definition n_cap_inv :: "'a band_scheme \<Rightarrow> bool" where
  "n_cap_inv st \<longleftrightarrow>
     length (truthwin st) = band_size \<and> length (truthnqual st) = band_size \<and>
     length (targetwin st) = band_size \<and> length (qualitieswin st) = band_size \<and>
     (\<forall>k < band_size. truthnqual st ! k =
        (if truthwin st ! k = short_of_char CHR ''N'' then n_score else infinity))"



definition md_state :: "nat \<Rightarrow> bool" where
  "md_state q \<longleftrightarrow> q = match_label \<or> q = delete_label"

definition bp_ok :: "ScoreType \<Rightarrow> bool" where
  "bp_ok w \<longleftrightarrow> md_state (label_at w match_label) \<and> md_state (label_at w delete_label)"


section \<open>The penalty of one alignment, in the words of the specification\<close>

text \<open>
  The specification describes the score as a minimum over alignments of the whole
  target against a stretch of the truth. \<open>spec_alignment_penalty\<close> follows those words for
  one alignment, given as its start offset in the truth and its list of edits: a mismatch
  costs the base quality (at most 2 where the truth base is \<open>N\<close>), a gap costs the open
  penalty for its first position and the extend penalty for every further one, an
  insertion costs \<open>nuc_prior\<close> on top, and every cell \<open>(x, y)\<close> of the path lies in the band
  \<open>0 \<le> x - y \<le> 2 * band_size - 1\<close>. The result is \<open>None\<close> for a path that leaves the band
  or the sequences, or that does not use up the target.
\<close>

datatype edit = Match | Insertion | Deletion

definition in_band :: "int \<Rightarrow> int \<Rightarrow> bool" where
  "in_band x y \<longleftrightarrow> 0 \<le> x - y \<and> x - y \<le> 2 * int band_size - 1"

definition gap_at :: "penalty \<Rightarrow> int \<Rightarrow> int" where
  "gap_at p x =
     (case p of
        Scalar v \<Rightarrow> sint v
      | PerPosition vs \<Rightarrow> sint (vs ! min (nat x) (length vs - 1)))"

definition edit_cost :: "align_input \<Rightarrow> edit option \<Rightarrow> int \<Rightarrow> int \<Rightarrow> edit \<Rightarrow> int" where
  "edit_cost inp prev x y e =
     (case e of
        Match \<Rightarrow>
          if truth inp ! nat x = target inp ! nat y then 0
          else if truth inp ! nat x = CHR ''N'' then min (sint (qualities inp ! nat y)) 2
          else sint (qualities inp ! nat y)
      | Insertion \<Rightarrow>
          (if prev = Some Insertion then gap_at (gap_extend inp) x else gap_at (gap_open inp) x)
            + sint (nuc_prior inp)
      | Deletion \<Rightarrow>
          (if prev = Some Deletion then gap_at (gap_extend inp) x else gap_at (gap_open inp) x))"

fun spec_alignment_penalty ::
  "align_input \<Rightarrow> edit option \<Rightarrow> int \<Rightarrow> int \<Rightarrow> edit list \<Rightarrow> int option" where
  "spec_alignment_penalty inp prev x y [] =
     (if y = target_len inp \<and> in_band x y then Some 0 else None)"
| "spec_alignment_penalty inp prev x y (e # es) =
     (let x' = (if e = Insertion then x else x + 1);
          y' = (if e = Deletion then y else y + 1)
      in if 0 \<le> x \<and> 0 \<le> y \<and> x' \<le> truth_len inp \<and> y' \<le> target_len inp \<and> in_band x y
         then map_option (\<lambda>r. edit_cost inp prev x y e + r)
                (spec_alignment_penalty inp (Some e) x' y' es)
         else None)"

section \<open>Inputs\<close>

text \<open>A zeroed buffer of \<open>n\<close> characters, as the unit tests hand to the alignment overload
  (\<open>2 * truth_len + 1\<close> characters there).\<close>

definition zero_buffer :: "nat \<Rightarrow> buffer" where
  "zero_buffer n = Some (replicate n (CHR 0x00))"

text \<open>The third case of \<open>sse2_check_alignments\<close>.\<close>

definition test3 :: align_input where
  "test3 = \<lparr> truth = ''ACGTACGAAGCTACGTACG'', target = ''CGGC'', qualities = [40, 40, 40, 40],
     truth_len = 19, target_len = 4,
     gap_open = PerPosition [90, 90, 90, 90, 90, 90, 90, 70, 90, 90, 90, 90, 90, 90, 90, 90, 90, 90, 90],
     gap_extend = Scalar 1, nuc_prior = 4 \<rparr>"

text \<open>The third case again, called with a truth length that is one too small for the
  shape precondition.\<close>

definition short_truth_input :: align_input where
  "short_truth_input = test3\<lparr> truth_len := 18 \<rparr>"

text \<open>A target that needs one inserted base.\<close>

definition insertion_input :: align_input where
  "insertion_input = \<lparr> truth = ''ACGTACGTACGTACGTACG'', target = ''ACTG'', qualities = [40, 40, 40, 40],
     truth_len = 19, target_len = 4,
     gap_open = PerPosition [10, 10, 10, 10, 10, 10, 10, 10, 10, 10, 10, 10, 10, 10, 10, 10, 10, 10, 10],
     gap_extend = Scalar 1, nuc_prior = 4 \<rparr>"

text \<open>Penalties large enough for the 16-bit scores to wrap around.\<close>

definition overflow_input :: align_input where
  "overflow_input = \<lparr> truth = ''ACGTACGTACGTACGTACG'', target = ''TTTT'', qualities = [40, 40, 40, 40],
     truth_len = 19, target_len = 4,
     gap_open = PerPosition [90, 90, 90, 90, 90, 90, 90, 90, 90, 90, 90, 90, 90, 90, 90, 90, 90, 90, 90],
     gap_extend = Scalar 600, nuc_prior = 4 \<rparr>"

text \<open>What the alignment overload hands back on \<open>overflow_input\<close> with two zeroed buffers
  of 39 characters.\<close>

definition overflow_return :: alignment where
  "overflow_return = \<lparr> score = - 1, first_pos = - 1,
     align1 = Some (''AT'' @ replicate 37 (CHR 0x00)),
     align2 = Some (''--'' @ replicate 37 (CHR 0x00)) \<rparr>"

text \<open>A target that is itself the gap character.\<close>

definition dash_input :: align_input where
  "dash_input = \<lparr> truth = ''ACGTACGTACGTACGA'', target = ''-'', qualities = [40],
     truth_len = 16, target_len = 1, gap_open = Scalar 90, gap_extend = Scalar 1, nuc_prior = 4 \<rparr>"

text \<open>A truth that begins with \<open>N\<close>, and the band state the declarations before the loop
  build for it.\<close>

definition n_input :: align_input where
  "n_input = \<lparr> truth = ''NCGTACGTACGTACGAAAA'', target = ''AAAA'', qualities = [40, 40, 40, 40],
     truth_len = 19, target_len = 4,
     gap_open = PerPosition [10, 10, 10, 10, 10, 10, 10, 10, 10, 10, 10, 10, 10, 10, 10, 10, 10, 10, 10],
     gap_extend = Scalar 1, nuc_prior = 4 \<rparr>"

definition n_state :: band where
  "n_state = \<lparr> m1 = [30720, 30720, 30720, 30720, 30720, 30720, 30720, 30720],
     i1 = [30720, 30720, 30720, 30720, 30720, 30720, 30720, 30720],
     d1 = [30720, 30720, 30720, 30720, 30720, 30720, 30720, 30720],
     m2 = [30720, 30720, 30720, 30720, 30720, 30720, 30720, 30720],
     i2 = [30720, 30720, 30720, 30720, 30720, 30720, 30720, 30720],
     d2 = [30720, 30720, 30720, 30720, 30720, 30720, 30720, 30720],
     initmask = [65535, 0, 0, 0, 0, 0, 0, 0],
     initmask2 = [32768, 0, 0, 0, 0, 0, 0, 0],
     truthwin = [78, 67, 71, 84, 65, 67, 71, 84],
     targetwin = [30720, 30720, 30720, 30720, 30720, 30720, 30720, 30720],
     qualitieswin = [256, 256, 256, 256, 256, 256, 256, 256],
     gap_open_win = [40, 40, 40, 40, 40, 40, 40, 40],
     gap_extend_win = [4, 4, 4, 4, 4, 4, 4, 4],
     truthnqual = [8, 30720, 30720, 30720, 30720, 30720, 30720, 30720],
     minscore = 30720 \<rparr>"


text \<open>Two inputs that differ only in where the target fits: one inserted base followed by
  three matches, from truth offset 4 in the first and from truth offset 5 in the second.\<close>

definition even_start_input :: align_input where
  "even_start_input = \<lparr> truth = ''TTTTCGTTTTTTTTTTTTT'', target = ''ACGT'', qualities = [40, 40, 40, 40],
     truth_len = 19, target_len = 4,
     gap_open = PerPosition [10, 10, 10, 10, 10, 10, 10, 10, 10, 10, 10, 10, 10, 10, 10, 10, 10, 10, 10],
     gap_extend = Scalar 1, nuc_prior = 4 \<rparr>"

definition odd_start_input :: align_input where
  "odd_start_input = \<lparr> truth = ''TTTTTCGTTTTTTTTTTTT'', target = ''ACGT'', qualities = [40, 40, 40, 40],
     truth_len = 19, target_len = 4,
     gap_open = PerPosition [10, 10, 10, 10, 10, 10, 10, 10, 10, 10, 10, 10, 10, 10, 10, 10, 10, 10, 10],
     gap_extend = Scalar 1, nuc_prior = 4 \<rparr>"

text \<open>States of the backtrace walk on a one-word back-pointer buffer: one that takes a
  step, one whose \<open>y\<close> has reached 0, and one whose \<open>s\<close> is out of range.\<close>

definition walk_a :: walk where
  "walk_a = \<lparr> w_s = 0, w_i = 0, w_x = 1, w_y = 1, w_alnidx = 0, w_state = 0,
     w_align1 = zero_buffer 2, w_align2 = zero_buffer 2 \<rparr>"

definition walk_b :: walk where
  "walk_b = \<lparr> w_s = - 2, w_i = 0, w_x = 0, w_y = 0, w_alnidx = 1, w_state = 0,
     w_align1 = Some [CHR ''A'', CHR 0x00], w_align2 = Some [CHR ''C'', CHR 0x00] \<rparr>"

definition walk_c :: walk where
  "walk_c = \<lparr> w_s = - 1, w_i = 0, w_x = 1, w_y = 1, w_alnidx = 0, w_state = 0,
     w_align1 = zero_buffer 2, w_align2 = zero_buffer 2 \<rparr>"

section \<open>Facts about the model\<close>

subsection \<open>Errors, arrays and the backtrace walk\<close>

declare main_loop.simps [simp del] main_loop_tb.simps [simp del] walk_loop.simps [simp del]
  reverse_loop.simps [simp del]

lemma bnd_Inr [simp]: "bnd (Inr v) f = f v" by (simp add: bnd_def)
lemma bnd_Inl [simp]: "bnd (Inl e) f = Inl e" by (simp add: bnd_def)

lemma bnd_eq_Inr: "bnd r f = Inr y \<longleftrightarrow> (\<exists>v. r = Inr v \<and> f v = Inr y)"
  by (cases r) simp_all

lemma rd_eq_Inr: "rd xs i = Inr v \<longleftrightarrow> 0 \<le> i \<and> i < int (length xs) \<and> v = xs ! nat i"
  by (auto simp: rd_def)

lemma rd_mem: "rd xs i = Inr v \<Longrightarrow> v \<in> set xs"
  by (auto simp: rd_eq_Inr)

lemma wr_eq_Inr: "wr xs i v = Inr ys \<longleftrightarrow> 0 \<le> i \<and> i < int (length xs) \<and> ys = xs[nat i := v]"
  by (auto simp: wr_def)

lemma wr_buf_eq_Inr:
  "wr_buf b i c = Inr b' \<longleftrightarrow> (\<exists>cs. b = Some cs \<and> 0 \<le> i \<and> i < int (length cs) \<and> b' = Some (cs[nat i := c]))"
  by (cases b) (auto simp: wr_buf_def bnd_eq_Inr wr_eq_Inr)

lemma rd_buf_eq_Inr:
  "rd_buf b i = Inr c \<longleftrightarrow> (\<exists>cs. b = Some cs \<and> 0 \<le> i \<and> i < int (length cs) \<and> c = cs ! nat i)"
  by (cases b) (auto simp: rd_buf_def rd_eq_Inr)

text \<open>What one iteration of the walk does, state by state.\<close>

lemma walk_step_match:
  assumes "walk_step tr tg flat w = Inr w'" "w_state w = match_label"
  shows "\<exists>c1 c2. w_align1 w = Some c1 \<and> w_align2 w = Some c2 \<and>
           0 \<le> w_alnidx w \<and> w_alnidx w < int (length c1) \<and> w_alnidx w < int (length c2) \<and>
           0 \<le> w_x w - 1 \<and> w_x w - 1 < int (length tr) \<and>
           0 \<le> w_y w - 1 \<and> w_y w - 1 < int (length tg) \<and>
           w_align1 w' = Some (c1[nat (w_alnidx w) := tr ! nat (w_x w - 1)]) \<and>
           w_align2 w' = Some (c2[nat (w_alnidx w) := tg ! nat (w_y w - 1)]) \<and>
           w_s w' = w_s w - 2 \<and> w_i w' = w_i w \<and> w_x w' = w_x w - 1 \<and> w_y w' = w_y w - 1 \<and>
           w_alnidx w' = w_alnidx w + 1"
  using assms
  by (auto simp: walk_step_def Let_def bnd_eq_Inr rd_eq_Inr wr_buf_eq_Inr)

lemma walk_step_insert:
  assumes "walk_step tr tg flat w = Inr w'" "w_state w = insert_label"
  shows "\<exists>c1 c2. w_align1 w = Some c1 \<and> w_align2 w = Some c2 \<and>
           0 \<le> w_alnidx w \<and> w_alnidx w < int (length c1) \<and> w_alnidx w < int (length c2) \<and>
           0 \<le> w_y w - 1 \<and> w_y w - 1 < int (length tg) \<and>
           w_align1 w' = Some (c1[nat (w_alnidx w) := gap_label]) \<and>
           w_align2 w' = Some (c2[nat (w_alnidx w) := tg ! nat (w_y w - 1)]) \<and>
           w_s w' = w_s w - 1 \<and> w_i w' = w_i w + w_s w mod 2 \<and> w_x w' = w_x w \<and> w_y w' = w_y w - 1 \<and>
           w_alnidx w' = w_alnidx w + 1"
  using assms
  by (auto simp: walk_step_def Let_def bnd_eq_Inr rd_eq_Inr wr_buf_eq_Inr match_label_def insert_label_def)

lemma walk_step_delete:
  assumes "walk_step tr tg flat w = Inr w'" "w_state w \<noteq> match_label" "w_state w \<noteq> insert_label"
  shows "\<exists>c1 c2. w_align1 w = Some c1 \<and> w_align2 w = Some c2 \<and>
           0 \<le> w_alnidx w \<and> w_alnidx w < int (length c1) \<and> w_alnidx w < int (length c2) \<and>
           0 \<le> w_x w - 1 \<and> w_x w - 1 < int (length tr) \<and>
           w_align1 w' = Some (c1[nat (w_alnidx w) := tr ! nat (w_x w - 1)]) \<and>
           w_align2 w' = Some (c2[nat (w_alnidx w) := gap_label]) \<and>
           w_s w' = w_s w - 1 \<and> w_i w' = w_i w - (w_s w - 1) mod 2 \<and> w_x w' = w_x w - 1 \<and> w_y w' = w_y w \<and>
           w_alnidx w' = w_alnidx w + 1"
  using assms
  by (auto simp: walk_step_def Let_def bnd_eq_Inr rd_eq_Inr wr_buf_eq_Inr)

lemma walk_step_s:
  "walk_step tr tg flat w = Inr w' \<Longrightarrow>
     w_s w' = w_s w - (if w_state w = match_label then 2 else 1)"
  using walk_step_match [of tr tg flat w w'] walk_step_insert [of tr tg flat w w']
    walk_step_delete [of tr tg flat w w']
  by (auto simp: match_label_def insert_label_def)

text \<open>The walk with a bound on the number of loop tests it may make.\<close>

lemma walk_fuel_enough:
  "nat (w_s w + 1) < n \<Longrightarrow> walk_fuel n tr tg flat w = Some (walk_loop tr tg flat w)"
proof (induction n arbitrary: w)
  case 0
  then show ?case by simp
next
  case (Suc n)
  show ?case
  proof (cases "w_y w > 0 \<and> \<not> (w_s w < 0 \<or> w_i w < 0)")
    case False
    then show ?thesis by (auto simp: walk_loop.simps)
  next
    case True
    show ?thesis
    proof (cases "walk_step tr tg flat w")
      case (Inl e)
      with True show ?thesis by (simp add: walk_loop.simps)
    next
      case (Inr w')
      from walk_step_s [OF Inr] have "w_s w' < w_s w" by (simp split: if_splits)
      with True Suc.prems have "nat (w_s w' + 1) < n" by linarith
      from Suc.IH [OF this] True Inr show ?thesis
        by (simp add: walk_loop.simps [of tr tg flat w])
    qed
  qed
qed

lemma update_emitted:
  "length e < length b \<Longrightarrow>
     (e @ drop (length e) b)[length e := c] = (e @ [c]) @ drop (length (e @ [c])) b"
  by (simp add: list_update_append Cons_nth_drop_Suc [symmetric])

lemma rev_drop_step:
  assumes "0 \<le> x - 1" "x - 1 < int (length tr)" "x \<le> x0"
  shows "rev (drop (nat (x - 1)) (take (nat x0) tr)) = rev (drop (nat x) (take (nat x0) tr)) @ [tr ! nat (x - 1)]"
proof -
  have lt: "nat (x - 1) < length (take (nat x0) tr)" using assms by simp
  have "drop (nat (x - 1)) (take (nat x0) tr) =
          take (nat x0) tr ! nat (x - 1) # drop (Suc (nat (x - 1))) (take (nat x0) tr)"
    using lt by (rule Cons_nth_drop_Suc [symmetric])
  moreover have "Suc (nat (x - 1)) = nat x" using assms by simp
  moreover have "take (nat x0) tr ! nat (x - 1) = tr ! nat (x - 1)" using assms by simp
  ultimately show ?thesis by simp
qed

lemma emitted_gap:
  assumes "emitted_inv sq b p0 e p n (Some c)" "n < int (length c)"
  shows "emitted_inv sq b p0 (e @ [gap_label]) p (n + 1) (Some (c[nat n := gap_label]))"
proof -
  from assms have c: "c = e @ drop (length e) b" and n: "nat n = length e" and lt: "length e < length b"
    by (auto simp: emitted_inv_def)
  have "c[nat n := gap_label] = (e @ [gap_label]) @ drop (length (e @ [gap_label])) b"
    unfolding c n by (rule update_emitted [OF lt])
  with assms(1) lt show ?thesis
    by (simp add: emitted_inv_def strip_gaps_def)
qed

lemma emitted_base:
  assumes "emitted_inv sq b p0 e p n (Some c)" "n < int (length c)"
      and "0 \<le> p - 1" "p - 1 < int (length sq)"
  shows "emitted_inv sq b p0 (e @ [sq ! nat (p - 1)]) (p - 1) (n + 1) (Some (c[nat n := sq ! nat (p - 1)]))"
proof -
  from assms have c: "c = e @ drop (length e) b" and n: "nat n = length e" and lt: "length e < length b"
    by (auto simp: emitted_inv_def)
  have u: "c[nat n := sq ! nat (p - 1)] = (e @ [sq ! nat (p - 1)]) @ drop (length (e @ [sq ! nat (p - 1)])) b"
    unfolding c n by (rule update_emitted [OF lt])
  from assms(1) have le: "p \<le> p0" by (simp add: emitted_inv_def)
  have m: "sq ! nat (p - 1) \<in> set sq" using assms(3,4) by simp
  have p0: "p0 \<le> int (length sq)"
  proof (cases "p < p0")
    case True with assms(1) show ?thesis by (simp add: emitted_inv_def)
  next
    case False with le assms(4) show ?thesis by simp
  qed
  have st: "strip_gaps (e @ [sq ! nat (p - 1)]) = rev (drop (nat (p - 1)) (take (nat p0) sq))"
    if ng: "gap_label \<notin> set sq"
  proof -
    from ng m have ne: "sq ! nat (p - 1) \<noteq> gap_label" by metis
    from assms(1) ng have "strip_gaps e = rev (drop (nat p) (take (nat p0) sq))"
      by (simp add: emitted_inv_def)
    with ne rev_drop_step [OF assms(3,4) le] show ?thesis by (simp add: strip_gaps_def)
  qed
  with assms(1,3) u lt m le p0 show ?thesis
    by (simp add: emitted_inv_def)
qed

lemma walk_step_inv:
  assumes inv: "walk_inv tr tg b1 b2 x0 y0 e1 e2 w"
      and step: "walk_step tr tg flat w = Inr w'"
  shows "\<exists>c1 c2. walk_inv tr tg b1 b2 x0 y0 (e1 @ [c1]) (e2 @ [c2]) w' \<and>
           (w_state w \<noteq> insert_label \<longrightarrow> c1 \<in> set tr)"
proof -
  from inv have i1: "emitted_inv tr b1 x0 e1 (w_x w) (w_alnidx w) (w_align1 w)"
    and i2: "emitted_inv tg b2 y0 e2 (w_y w) (w_alnidx w) (w_align2 w)"
    by (simp_all add: walk_inv_def)
  consider (M) "w_state w = match_label" | (I) "w_state w = insert_label"
    | (D) "w_state w \<noteq> match_label" "w_state w \<noteq> insert_label" by blast
  then show ?thesis
  proof cases
    case M
    from walk_step_match [OF step M] obtain c1 c2 where
      f: "w_align1 w = Some c1" "w_align2 w = Some c2"
         "w_alnidx w < int (length c1)" "w_alnidx w < int (length c2)"
         "0 \<le> w_x w - 1" "w_x w - 1 < int (length tr)"
         "0 \<le> w_y w - 1" "w_y w - 1 < int (length tg)"
         "w_align1 w' = Some (c1[nat (w_alnidx w) := tr ! nat (w_x w - 1)])"
         "w_align2 w' = Some (c2[nat (w_alnidx w) := tg ! nat (w_y w - 1)])"
         "w_x w' = w_x w - 1" "w_y w' = w_y w - 1" "w_alnidx w' = w_alnidx w + 1"
      by blast
    have "walk_inv tr tg b1 b2 x0 y0 (e1 @ [tr ! nat (w_x w - 1)]) (e2 @ [tg ! nat (w_y w - 1)]) w'"
      unfolding walk_inv_def f(9-13)
      using emitted_base [OF i1 [unfolded f(1)] f(3,5,6)]
            emitted_base [OF i2 [unfolded f(2)] f(4,7,8)] by simp
    moreover have "tr ! nat (w_x w - 1) \<in> set tr" using f(5,6) by simp
    ultimately show ?thesis by blast
  next
    case I
    from walk_step_insert [OF step I] obtain c1 c2 where
      f: "w_align1 w = Some c1" "w_align2 w = Some c2"
         "w_alnidx w < int (length c1)" "w_alnidx w < int (length c2)"
         "0 \<le> w_y w - 1" "w_y w - 1 < int (length tg)"
         "w_align1 w' = Some (c1[nat (w_alnidx w) := gap_label])"
         "w_align2 w' = Some (c2[nat (w_alnidx w) := tg ! nat (w_y w - 1)])"
         "w_x w' = w_x w" "w_y w' = w_y w - 1" "w_alnidx w' = w_alnidx w + 1"
      by blast
    have "walk_inv tr tg b1 b2 x0 y0 (e1 @ [gap_label]) (e2 @ [tg ! nat (w_y w - 1)]) w'"
      unfolding walk_inv_def f(7-11)
      using emitted_gap [OF i1 [unfolded f(1)] f(3)]
            emitted_base [OF i2 [unfolded f(2)] f(4,5,6)] by simp
    with I show ?thesis by blast
  next
    case D
    from walk_step_delete [OF step D] obtain c1 c2 where
      f: "w_align1 w = Some c1" "w_align2 w = Some c2"
         "w_alnidx w < int (length c1)" "w_alnidx w < int (length c2)"
         "0 \<le> w_x w - 1" "w_x w - 1 < int (length tr)"
         "w_align1 w' = Some (c1[nat (w_alnidx w) := tr ! nat (w_x w - 1)])"
         "w_align2 w' = Some (c2[nat (w_alnidx w) := gap_label])"
         "w_x w' = w_x w - 1" "w_y w' = w_y w" "w_alnidx w' = w_alnidx w + 1"
      by blast
    have "walk_inv tr tg b1 b2 x0 y0 (e1 @ [tr ! nat (w_x w - 1)]) (e2 @ [gap_label]) w'"
      unfolding walk_inv_def f(7-11)
      using emitted_base [OF i1 [unfolded f(1)] f(3,5,6)]
            emitted_gap [OF i2 [unfolded f(2)] f(4)] by simp
    moreover have "tr ! nat (w_x w - 1) \<in> set tr" using f(5,6) by simp
    ultimately show ?thesis by blast
  qed
qed

text \<open>Over a back-pointer buffer without insertion labels the walk stays in the match and
  deletion states, and what it writes into the first buffer are truth characters.\<close>

lemma walk_step_state:
  assumes step: "walk_step tr tg flat w = Inr w'" and ok: "list_all bp_ok flat"
      and st: "md_state (w_state w)"
  shows "md_state (w_state w')"
proof -
  from step obtain bp where bp: "bp_word flat (w_s w) (w_i w) = Inr bp"
    and w': "w_state w' = label_at bp (w_state w)"
    by (auto simp: walk_step_def Let_def bnd_eq_Inr split: if_splits)
  from bp have "bp \<in> set flat" unfolding bp_word_def by (rule rd_mem)
  with ok have "bp_ok bp" by (simp add: list_all_iff)
  with st w' show ?thesis by (auto simp: bp_ok_def md_state_def)
qed

lemma walk_loop_inv:
  "walk_inv tr tg b1 b2 x0 y0 e1 e2 w \<Longrightarrow> walk_loop tr tg flat w = Inr r \<Longrightarrow>
     (\<exists>e1' e2' w'. (r = Walked w' \<and> w_y w' \<le> 0 \<or> r = Overflowed w') \<and>
         walk_inv tr tg b1 b2 x0 y0 e1' e2' w' \<and>
         (list_all bp_ok flat \<and> md_state (w_state w) \<and> set e1 \<subseteq> set tr \<longrightarrow>
            set e1' \<subseteq> set tr))"
proof (induction tr tg flat w arbitrary: e1 e2 rule: walk_loop.induct)
  case (1 tr tg flat w)
  show ?case
  proof (cases "w_y w > 0")
    case False
    with "1.prems"(2) have "r = Walked w" by (simp add: walk_loop.simps [of tr tg flat w])
    with False "1.prems"(1) show ?thesis by auto
  next
    case y: True
    show ?thesis
    proof (cases "w_s w < 0 \<or> w_i w < 0")
      case True
      with y "1.prems"(2) have "r = Overflowed w" by (simp add: walk_loop.simps [of tr tg flat w])
      with "1.prems"(1) show ?thesis by auto
    next
      case False
      with y "1.prems"(2) obtain w1 where
        st: "walk_step tr tg flat w = Inr w1" and lp: "walk_loop tr tg flat w1 = Inr r"
        by (auto simp: walk_loop.simps [of tr tg flat w] split: sum.splits)
      from walk_step_inv [OF "1.prems"(1) st]
      obtain c1 c2 where inv1: "walk_inv tr tg b1 b2 x0 y0 (e1 @ [c1]) (e2 @ [c2]) w1"
        and c1: "w_state w \<noteq> insert_label \<longrightarrow> c1 \<in> set tr" by blast
      from "1.IH" [OF y False st inv1 lp] obtain e1' e2' w' where
        a: "r = Walked w' \<and> w_y w' \<le> 0 \<or> r = Overflowed w'"
           "walk_inv tr tg b1 b2 x0 y0 e1' e2' w'" and
        b: "list_all bp_ok flat \<and> md_state (w_state w1) \<and> set (e1 @ [c1]) \<subseteq> set tr \<longrightarrow>
              set e1' \<subseteq> set tr"
        by blast
      have "set e1' \<subseteq> set tr"
        if h: "list_all bp_ok flat \<and> md_state (w_state w) \<and> set e1 \<subseteq> set tr"
      proof -
        from h have "w_state w \<noteq> insert_label"
          by (auto simp: md_state_def match_label_def insert_label_def delete_label_def)
        with c1 h have "set (e1 @ [c1]) \<subseteq> set tr" by simp
        moreover from walk_step_state [OF st] h have "md_state (w_state w1)" by blast
        ultimately show ?thesis using b h by blast
      qed
      with a show ?thesis by blast
    qed
  qed
qed

text \<open>The reversal loop reverses the cells \<open>i..j\<close> of both buffers and leaves the rest.\<close>

lemma reverse_loop_spec:
  "0 \<le> i \<Longrightarrow> j < int (length c1) \<Longrightarrow> j < int (length c2) \<Longrightarrow>
   \<exists>d1 d2. reverse_loop i j (Some c1) (Some c2) = Inr (Some d1, Some d2) \<and>
     length d1 = length c1 \<and> length d2 = length c2 \<and>
     (\<forall>k < length c1. d1 ! k = (if i \<le> int k \<and> int k \<le> j then c1 ! nat (i + j - int k) else c1 ! k)) \<and>
     (\<forall>k < length c2. d2 ! k = (if i \<le> int k \<and> int k \<le> j then c2 ! nat (i + j - int k) else c2 ! k))"
proof (induction "nat (j - i)" arbitrary: i j c1 c2 rule: less_induct)
  case less
  note prems = less.prems
  show ?case
  proof (cases "i < j")
    case False
    then have "reverse_loop i j (Some c1) (Some c2) = Inr (Some c1, Some c2)"
      by (simp add: reverse_loop.simps)
    moreover from False have "\<And>k. i \<le> int k \<and> int k \<le> j \<Longrightarrow> nat (i + j - int k) = k"
      by auto
    ultimately show ?thesis by auto
  next
    case True
    define c1' where "c1' = c1[nat i := c1 ! nat j, nat j := c1 ! nat i]"
    define c2' where "c2' = c2[nat i := c2 ! nat j, nat j := c2 ! nat i]"
    have rl: "reverse_loop i j (Some c1) (Some c2) = reverse_loop (i + 1) (j - 1) (Some c1') (Some c2')"
      using True prems
      by (simp add: reverse_loop.simps [of i j] rd_buf_def wr_buf_def rd_def wr_def c1'_def c2'_def)
    have "\<exists>d1 d2. reverse_loop (i + 1) (j - 1) (Some c1') (Some c2') = Inr (Some d1, Some d2) \<and>
       length d1 = length c1' \<and> length d2 = length c2' \<and>
       (\<forall>k < length c1'. d1 ! k = (if i + 1 \<le> int k \<and> int k \<le> j - 1 then c1' ! nat (i + 1 + (j - 1) - int k) else c1' ! k)) \<and>
       (\<forall>k < length c2'. d2 ! k = (if i + 1 \<le> int k \<and> int k \<le> j - 1 then c2' ! nat (i + 1 + (j - 1) - int k) else c2' ! k))"
      using True prems by (intro less.hyps) (simp_all add: c1'_def c2'_def)
    then obtain d1 d2 where d: "reverse_loop (i + 1) (j - 1) (Some c1') (Some c2') = Inr (Some d1, Some d2)"
       "length d1 = length c1'" "length d2 = length c2'"
       "\<And>k. k < length c1' \<Longrightarrow> d1 ! k = (if i + 1 \<le> int k \<and> int k \<le> j - 1 then c1' ! nat (i + 1 + (j - 1) - int k) else c1' ! k)"
       "\<And>k. k < length c2' \<Longrightarrow> d2 ! k = (if i + 1 \<le> int k \<and> int k \<le> j - 1 then c2' ! nat (i + 1 + (j - 1) - int k) else c2' ! k)"
      by blast
    have n1: "\<And>k. k < length c1 \<Longrightarrow> d1 ! k = (if i \<le> int k \<and> int k \<le> j then c1 ! nat (i + j - int k) else c1 ! k)"
      using d(4) True prems unfolding c1'_def
      by (auto simp: nth_list_update nat_eq_iff)
    have n2: "\<And>k. k < length c2 \<Longrightarrow> d2 ! k = (if i \<le> int k \<and> int k \<le> j then c2 ! nat (i + j - int k) else c2 ! k)"
      using d(5) True prems unfolding c2'_def
      by (auto simp: nth_list_update nat_eq_iff)
    from d(1,2,3) rl n1 n2 show ?thesis by (simp add: c1'_def c2'_def)
  qed
qed

lemma reverse_whole:
  assumes "n \<le> length c1" "n \<le> length c2"
  shows "reverse_loop 0 (int n - 1) (Some c1) (Some c2) =
           Inr (Some (rev (take n c1) @ drop n c1), Some (rev (take n c2) @ drop n c2))"
proof -
  from reverse_loop_spec [of 0 "int n - 1" c1 c2] assms obtain d1 d2 where
    d: "reverse_loop 0 (int n - 1) (Some c1) (Some c2) = Inr (Some d1, Some d2)"
       "length d1 = length c1" "length d2 = length c2"
       "\<And>k. k < length c1 \<Longrightarrow> d1 ! k = (if 0 \<le> int k \<and> int k \<le> int n - 1 then c1 ! nat (0 + (int n - 1) - int k) else c1 ! k)"
       "\<And>k. k < length c2 \<Longrightarrow> d2 ! k = (if 0 \<le> int k \<and> int k \<le> int n - 1 then c2 ! nat (0 + (int n - 1) - int k) else c2 ! k)"
    by auto
  have r: "\<And>(c::string) k. n \<le> length c \<Longrightarrow> k < length c \<Longrightarrow>
             (rev (take n c) @ drop n c) ! k = (if int k \<le> int n - 1 then c ! nat (int n - 1 - int k) else c ! k)"
  proof -
    fix c :: string and k assume a: "n \<le> length c" "k < length c"
    show "(rev (take n c) @ drop n c) ! k = (if int k \<le> int n - 1 then c ! nat (int n - 1 - int k) else c ! k)"
    proof (cases "k < n")
      case True
      then have "nat (int n - 1 - int k) = n - Suc k" by simp
      with True a show ?thesis by (simp add: nth_append rev_nth)
    next
      case False
      with a show ?thesis by (simp add: nth_append)
    qed
  qed
  have "d1 = rev (take n c1) @ drop n c1"
    using d(2,4) assms(1) r [of c1] by (intro nth_equalityI) auto
  moreover have "d2 = rev (take n c2) @ drop n c2"
    using d(3,5) assms(2) r [of c2] by (intro nth_equalityI) auto
  ultimately show ?thesis using d(1) by simp
qed

lemma emitted_start: "emitted_inv sq b p0 [] p0 0 (Some b)"
  by (simp add: emitted_inv_def strip_gaps_def)

lemma final_score_nonneg: "0 \<le> final_score ms"
proof -
  have "- (2 ^ 15) \<le> sint ms" using sint_ge [of ms] by simp
  then show ?thesis by (simp add: final_score_def bitmask_def trace_bits_def)
qed

lemma reconstruct_cases:
  "reconstruct inp ms msi bps a1 a2 =
     (if msi < 0 then Inr (overflow_result a1 a2)
      else case bp_word (concat bps) msi (msi div 2 - target_len inp) of
             Inl e \<Rightarrow> Inr (overflow_result a1 a2)
           | Inr bp \<Rightarrow> bnd (walk_loop (truth inp) (target inp) (concat bps) (walk_start inp msi bp a1 a2))
                           (finish ms))"
  by (auto simp: reconstruct_def Let_def bp_word_def rd_def)

lemma finish_Walked:
  assumes "finish ms (Walked w) = Inr r" "w_align1 w = Some c1" "w_align2 w = Some c2"
  shows "0 \<le> w_alnidx w \<and> w_alnidx w < int (length c1) \<and> w_alnidx w < int (length c2) \<and>
         reverse_loop 0 (w_alnidx w - 1) (Some (c1[nat (w_alnidx w) := CHR 0x00]))
              (Some (c2[nat (w_alnidx w) := CHR 0x00])) = Inr (align1 r, align2 r) \<and>
         score r = final_score ms \<and> first_pos r = w_x w"
  using assms by (auto simp: finish_def bnd_eq_Inr wr_buf_eq_Inr)

text \<open>A successful reconstruction: what the caller finds in the buffers.\<close>

lemma reconstruct_success:
  assumes rec: "reconstruct inp ms msi bps (Some b1) (Some b2) = Inr r"
      and ok: "0 \<le> score r"
  shows "\<exists>e1 e2 w. walk_inv (truth inp) (target inp) b1 b2 (msi - target_len inp) (target_len inp) e1 e2 w \<and>
           w_y w \<le> 0 \<and> 0 \<le> msi \<and>
           score r = final_score ms \<and> first_pos r = w_x w \<and>
           align1 r = Some (rev e1 @ CHR 0x00 # drop (Suc (length e1)) b1) \<and>
           align2 r = Some (rev e2 @ CHR 0x00 # drop (Suc (length e2)) b2) \<and>
           (list_all (list_all bp_ok) bps \<longrightarrow> set e1 \<subseteq> set (truth inp))"
proof -
  let ?tl = "target_len inp"
  let ?flat = "concat bps"
  have msi: "0 \<le> msi" using rec ok by (auto simp: reconstruct_cases overflow_result_def split: if_splits)
  with rec ok obtain bp r' where
    bp: "bp_word ?flat msi (msi div 2 - ?tl) = Inr bp" and
    wl: "walk_loop (truth inp) (target inp) ?flat (walk_start inp msi bp (Some b1) (Some b2)) = Inr r'" and
    fin: "finish ms r' = Inr r"
    by (auto simp: reconstruct_cases overflow_result_def bnd_eq_Inr split: if_splits sum.splits)
  let ?w0 = "walk_start inp msi bp (Some b1) (Some b2)"
  have "walk_inv (truth inp) (target inp) b1 b2 (msi - ?tl) ?tl [] [] ?w0"
    by (simp add: walk_inv_def walk_start_def emitted_start)
  from walk_loop_inv [OF this wl] obtain e1 e2 w where
    r': "r' = Walked w \<and> w_y w \<le> 0 \<or> r' = Overflowed w" and
    inv: "walk_inv (truth inp) (target inp) b1 b2 (msi - ?tl) ?tl e1 e2 w" and
    pl: "list_all bp_ok ?flat \<and> md_state (w_state ?w0) \<and> set [] \<subseteq> set (truth inp) \<longrightarrow>
           set e1 \<subseteq> set (truth inp)"
    by blast
  have plain: "set e1 \<subseteq> set (truth inp)" if h: "list_all (list_all bp_ok) bps"
  proof -
    from h have f: "list_all bp_ok ?flat" by (auto simp: list_all_iff)
    from bp have "bp \<in> set ?flat" unfolding bp_word_def by (rule rd_mem)
    with f have "bp_ok bp" unfolding list_all_iff by (rule bspec)
    then have "md_state (w_state ?w0)" by (simp add: walk_start_def bp_ok_def)
    with f pl show ?thesis by simp
  qed
  from r' fin ok have w: "r' = Walked w" "w_y w \<le> 0"
    by (auto simp: overflow_result_def finish_def)
  from inv have a: "w_align1 w = Some (e1 @ drop (length e1) b1)" "w_align2 w = Some (e2 @ drop (length e2) b2)"
    "int (length e1) = w_alnidx w" "int (length e2) = w_alnidx w"
    "length e1 \<le> length b1" "length e2 \<le> length b2"
    by (simp_all add: walk_inv_def emitted_inv_def)
  note f = finish_Walked [OF fin [unfolded w(1)] a(1,2)]
  from f a(3,5) have lt1: "length e1 < length b1" by simp
  from f a(4,6) have lt2: "length e2 < length b2" by simp
  have n: "nat (w_alnidx w) = length e1" "nat (w_alnidx w) = length e2" using a(3,4) by simp_all
  have t1: "(e1 @ drop (length e1) b1)[nat (w_alnidx w) := CHR 0x00] = (e1 @ [CHR 0x00]) @ drop (Suc (length e1)) b1"
    using n(1) update_emitted [OF lt1, of "CHR 0x00"] by simp
  have t2: "(e2 @ drop (length e2) b2)[nat (w_alnidx w) := CHR 0x00] = (e2 @ [CHR 0x00]) @ drop (Suc (length e2)) b2"
    using n(2) update_emitted [OF lt2, of "CHR 0x00"] by simp
  have rv: "reverse_loop 0 (w_alnidx w - 1) (Some ((e1 @ [CHR 0x00]) @ drop (Suc (length e1)) b1))
                (Some ((e2 @ [CHR 0x00]) @ drop (Suc (length e2)) b2)) =
      Inr (Some (rev e1 @ CHR 0x00 # drop (Suc (length e1)) b1), Some (rev e2 @ CHR 0x00 # drop (Suc (length e2)) b2))"
    using reverse_whole [of "length e1" "(e1 @ [CHR 0x00]) @ drop (Suc (length e1)) b1"
                            "(e2 @ [CHR 0x00]) @ drop (Suc (length e2)) b2"] a(3,4)
    by simp
  from f rv have "align1 r = Some (rev e1 @ CHR 0x00 # drop (Suc (length e1)) b1)"
     "align2 r = Some (rev e2 @ CHR 0x00 # drop (Suc (length e2)) b2)"
    unfolding t1 t2 by simp_all
  with inv w(2) msi f plain show ?thesis by blast
qed

subsection \<open>Results of the alignment overload\<close>

lemma align_alignment_Inr:
  assumes "align_alignment ndebug inp a1 a2 = Inr r"
  shows "(ndebug \<or> shape_ok inp) \<and> (\<exists>st0 st. init_band inp = Inr st0 \<and>
           main_loop_tb inp 0 (init_traced inp st0) = Inr st \<and>
           reconstruct inp (minscore st) (minscoreidx st) (backpointers st) a1 a2 = Inr r)"
  using assms by (auto simp: align_alignment_def bnd_eq_Inr split: if_splits)

lemma c_str_terminated: "CHR 0x00 \<notin> set e \<Longrightarrow> c_str (e @ CHR 0x00 # rest) = e"
  by (auto simp: c_str_def takeWhile_tail)

lemma strip_gaps_rev: "strip_gaps (rev e) = rev (strip_gaps e)"
  by (simp add: strip_gaps_def rev_filter)



lemma emitted_no_nul:
  assumes "emitted_inv sq b p0 e p n a" "CHR 0x00 \<notin> set sq"
  shows "CHR 0x00 \<notin> set e"
  using assms by (auto simp: emitted_inv_def gap_label_def)


subsection \<open>Where the running minimum is taken\<close>

lemma advance_target_idx:
  "advance_target inp s st = Inr st' \<Longrightarrow> minscoreidx st' = minscoreidx st"
  by (auto simp: advance_target_def Let_def bnd_eq_Inr split: if_splits)

lemma advance_truth_idx:
  "advance_truth inp k s st = Inr st' \<Longrightarrow> minscoreidx st' = minscoreidx st"
  by (auto simp: advance_truth_def Let_def bnd_eq_Inr split: if_splits)

lemma even_half_tb_idx:
  "even_half_tb inp s st = Inr st' \<Longrightarrow>
     minscoreidx st' = minscoreidx st \<or> minscoreidx st' = s \<and> target_len inp \<le> s div 2"
  by (auto simp: even_half_tb_def Let_def bnd_eq_Inr split: if_splits)

lemma odd_half_tb_idx:
  "odd_half_tb inp s st = Inr st' \<Longrightarrow>
     minscoreidx st' = minscoreidx st \<or> minscoreidx st' = s + 1 \<and> target_len inp \<le> s div 2"
  by (auto simp: odd_half_tb_def Let_def bnd_eq_Inr split: if_splits)

lemma loop_body_tb_idx:
  assumes "loop_body_tb inp s st = Inr st'" "idx_ok inp (minscoreidx st)"
      and "s \<le> 2 * (target_len inp + int band_size)"
  shows "idx_ok inp (minscoreidx st')"
proof -
  from assms(1) obtain st1 st2 st3 where
    "advance_target inp s st = Inr st1" "even_half_tb inp s st1 = Inr st2"
    "advance_truth inp trace_bits s st2 = Inr st3" "odd_half_tb inp s st3 = Inr st'"
    by (auto simp: loop_body_tb_def bnd_eq_Inr)
  from advance_target_idx [OF this(1)] even_half_tb_idx [OF this(2)]
       advance_truth_idx [OF this(3)] odd_half_tb_idx [OF this(4)] assms(2,3)
  show ?thesis unfolding idx_ok_def by auto
qed

lemma main_loop_tb_idx:
  "main_loop_tb inp s st = Inr st' \<Longrightarrow> idx_ok inp (minscoreidx st) \<Longrightarrow>
     idx_ok inp (minscoreidx st')"
proof (induction inp s st rule: main_loop_tb.induct)
  case (1 inp s st)
  show ?case
  proof (cases "s \<le> 2 * (target_len inp + int band_size)")
    case False
    with "1.prems" show ?thesis by (simp add: main_loop_tb.simps [of inp s st])
  next
    case True
    with "1.prems"(1) obtain st1 where
      b: "loop_body_tb inp s st = Inr st1" and l: "main_loop_tb inp (s + 2) st1 = Inr st'"
      by (auto simp: main_loop_tb.simps [of inp s st] split: sum.splits)
    from "1.IH" [OF True b l loop_body_tb_idx [OF b "1.prems"(2) True]] show ?thesis .
  qed
qed

lemma init_traced_idx: "idx_ok inp (minscoreidx (init_traced inp st0))"
  by (simp add: init_traced_def idx_ok_def band.extend_def)


subsection \<open>The overflow return\<close>

lemma align_alignment_eq:
  assumes "ndebug \<or> shape_ok inp" "init_band inp = Inr st0"
    "main_loop_tb inp 0 (init_traced inp st0) = Inr st"
  shows "align_alignment ndebug inp a1 a2 =
           reconstruct inp (minscore st) (minscoreidx st) (backpointers st) a1 a2"
  using assms by (auto simp: align_alignment_def)

text \<open>A return with a negative score: what the walk had emitted is all that has changed.\<close>

lemma reconstruct_overflow_shape:
  assumes rec: "reconstruct inp ms msi bps (Some b1) (Some b2) = Inr r" and neg: "score r < 0"
  shows "score r = - 1 \<and> first_pos r = - 1 \<and>
         (\<exists>e1 e2 w. walk_inv (truth inp) (target inp) b1 b2 (msi - target_len inp) (target_len inp) e1 e2 w \<and>
                    align1 r = w_align1 w \<and> align2 r = w_align2 w)"
proof -
  let ?tl = "target_len inp"
  let ?w0 = "walk_start inp msi 0 (Some b1) (Some b2)"
  have w0: "walk_inv (truth inp) (target inp) b1 b2 (msi - ?tl) ?tl [] [] ?w0"
    "w_align1 ?w0 = Some b1" "w_align2 ?w0 = Some b2"
    by (simp_all add: walk_inv_def walk_start_def emitted_start)
  have untouched: ?thesis if "r = overflow_result (Some b1) (Some b2)"
  proof -
    from w0 have "\<exists>e1 e2 w. walk_inv (truth inp) (target inp) b1 b2 (msi - ?tl) ?tl e1 e2 w \<and>
        Some b1 = w_align1 w \<and> Some b2 = w_align2 w"
      by (intro exI [of _ "[]"] exI [of _ ?w0]) simp
    with that show ?thesis by (simp add: overflow_result_def)
  qed
  show ?thesis
  proof (cases "msi < 0")
    case True
    with rec have "r = overflow_result (Some b1) (Some b2)" by (simp add: reconstruct_cases)
    then show ?thesis by (rule untouched)
  next
    case False
    show ?thesis
    proof (cases "bp_word (concat bps) msi (msi div 2 - ?tl)")
      case (Inl e)
      with False rec have "r = overflow_result (Some b1) (Some b2)" by (simp add: reconstruct_cases)
      then show ?thesis by (rule untouched)
    next
      case (Inr bp)
      with False rec obtain r' where
        wl: "walk_loop (truth inp) (target inp) (concat bps) (walk_start inp msi bp (Some b1) (Some b2)) = Inr r'"
        and fin: "finish ms r' = Inr r"
        by (auto simp: reconstruct_cases bnd_eq_Inr)
      have "walk_inv (truth inp) (target inp) b1 b2 (msi - ?tl) ?tl [] [] (walk_start inp msi bp (Some b1) (Some b2))"
        by (simp add: walk_inv_def walk_start_def emitted_start)
      from walk_loop_inv [OF this wl] obtain e1 e2 w where
        r': "r' = Walked w \<and> w_y w \<le> 0 \<or> r' = Overflowed w" and
        inv: "walk_inv (truth inp) (target inp) b1 b2 (msi - ?tl) ?tl e1 e2 w" by blast
      have "r' = Overflowed w"
      proof (rule ccontr)
        assume "r' \<noteq> Overflowed w"
        with r' have "r' = Walked w" by simp
        with fin have "score r = final_score ms" by (auto simp: finish_def bnd_eq_Inr)
        with neg final_score_nonneg [of ms] show False by simp
      qed
      with fin have r: "r = overflow_result (w_align1 w) (w_align2 w)" by (simp add: finish_def)
      with inv show ?thesis by (auto simp: overflow_result_def)
    qed
  qed
qed

subsection \<open>Bytes, lanes and the N-cap vector\<close>

lemma sint_short_of_char:
  "sint (short_of_char c) = (let n = (of_char c :: int) in if n < 128 then n else n - 256)"
proof -
  have "(of_char c :: int) mod 256 = of_char c" by simp
  then have b: "0 \<le> (of_char c :: int)" "(of_char c :: int) < 256"
    by (metis pos_mod_sign zero_less_numeral, metis pos_mod_bound zero_less_numeral)
  define n :: int where "n = (if (of_char c :: int) < 128 then of_char c else of_char c - 256)"
  from b have "- (2 ^ 15) \<le> n" "n < 2 ^ 15" by (auto simp: n_def)
  then have "signed_take_bit 15 n = n" by (simp add: signed_take_bit_int_eq_self)
  then have "sint (word_of_int n :: 16 word) = n" by (simp add: sint_sbintrunc')
  then show ?thesis by (simp add: short_of_char_def Let_def n_def)
qed

lemma of_char_range: "0 \<le> (of_char c :: int) \<and> (of_char c :: int) < 256"
proof -
  have "(of_char c :: int) mod 256 = of_char c" by simp
  then show ?thesis by (metis pos_mod_sign pos_mod_bound zero_less_numeral)
qed

lemma short_of_char_inj: "short_of_char a = short_of_char b \<longleftrightarrow> a = b"
proof
  assume "short_of_char a = short_of_char b"
  then have "sint (short_of_char a) = sint (short_of_char b)" by simp
  then have "(of_char a :: int) = of_char b"
    using of_char_range [of a] of_char_range [of b]
    by (auto simp: sint_short_of_char Let_def split: if_splits)
  then show "a = b" by (simp add: inj_of_char [THEN injD])
qed simp

lemma byte_join: "(ucast (ucast w :: 8 word) OR push_bit 8 (ucast (ucast (drop_bit 8 w) :: 8 word))) = (w :: 16 word)"
  by (rule bit_word_eqI) (auto simp: bit_simps)

lemma from_to_bytes: "from_bytes (to_bytes v @ bs) = v @ from_bytes bs"
  by (induction v) (simp_all add: to_bytes_def byte_join)

lemma length_to_bytes: "length (to_bytes v) = 2 * length v"
  by (induction v) (simp_all add: to_bytes_def)

lemma to_bytes_snoc: "to_bytes (xs @ [x]) = to_bytes xs @ [ucast x, ucast (drop_bit 8 x)]"
  by (simp add: to_bytes_def)

text \<open>A shift by one score (\<open>score_bytes\<close> bytes) moves every lane by one.\<close>

lemma v_right_shift_lane: "v_right_shift score_bytes (x # xs) = xs @ [0]"
proof -
  have "drop 2 (to_bytes (x # xs)) = to_bytes xs" by (simp add: to_bytes_def)
  moreover have "replicate (min 2 (2 * length (x # xs))) (0::8 word) = [0, 0]"
    by (simp add: numeral_2_eq_2)
  ultimately show ?thesis
    by (simp add: v_right_shift_def score_bytes_def from_to_bytes del: replicate.simps)
qed

lemma v_left_shift_lane: "v \<noteq> [] \<Longrightarrow> v_left_shift score_bytes v = 0 # butlast v"
proof -
  assume "v \<noteq> []"
  then obtain ys y where v: "v = ys @ [y]" by (metis rev_exhaust)
  have "take (2 * length v) (replicate 2 0 @ to_bytes v) = [0, 0] @ to_bytes ys"
    by (simp add: v to_bytes_snoc length_to_bytes numeral_2_eq_2)
  then have "v_left_shift score_bytes v = from_bytes ([0, 0] @ to_bytes ys @ [])"
    by (simp add: v_left_shift_def score_bytes_def)
  also have "\<dots> = 0 # ys" using from_to_bytes [of ys "[]"] by simp
  finally show ?thesis by (simp add: v)
qed

lemma shift_in_last:
  assumes "length v = band_size"
  shows "length (v_insert (v_right_shift score_bytes v) x (int band_size - 1)) = band_size"
    and "k < band_size \<Longrightarrow> v_insert (v_right_shift score_bytes v) x (int band_size - 1) ! k =
           (if k = band_size - 1 then x else v ! Suc k)"
proof -
  from assms obtain y ys where v: "v = y # ys" by (cases v) (auto simp: band_size_def)
  with assms have l: "length ys = band_size - 1" by simp
  have i: "nat ((int band_size - 1) mod int band_size) = band_size - 1" by (simp add: band_size_def)
  show "length (v_insert (v_right_shift score_bytes v) x (int band_size - 1)) = band_size"
    using l by (simp add: v v_right_shift_lane v_insert_def band_size_def)
  show "v_insert (v_right_shift score_bytes v) x (int band_size - 1) ! k =
           (if k = band_size - 1 then x else v ! Suc k)" if "k < band_size"
    using that l unfolding v v_right_shift_lane v_insert_def i
    by (auto simp: nth_list_update nth_append band_size_def)
qed

lemma shift_in_first:
  assumes "length v = band_size"
  shows "length (v_insert (v_left_shift score_bytes v) x 0) = band_size"
proof -
  from assms have "v \<noteq> []" by (auto simp: band_size_def)
  with assms show ?thesis by (simp add: v_left_shift_lane v_insert_def band_size_def)
qed

lemma init_band_n_cap:
  assumes "init_band inp = Inr st"
  shows "n_cap_inv st"
proof -
  from assms obtain tw go ge where
    tw: "vectorise_reverse (truth inp) = Inr tw" and
    st: "truthwin st = tw" "targetwin st = vectorise infinity"
        "qualitieswin st = vectorise (push_bit trace_bits max_n_quality)"
        "truthnqual st = v_add (v_and (v_cmpeq tw (vectorise (short_of_char CHR ''N'')))
                                       (vectorise (n_score - infinity))) (vectorise infinity)"
    by (auto simp: init_band_def bnd_eq_Inr)
  from tw have l: "length tw = band_size"
    by (auto simp: vectorise_reverse_def split: if_splits)
  have "truthnqual st ! k = (if tw ! k = short_of_char CHR ''N'' then n_score else infinity)"
    if "k < band_size" for k
    using that l unfolding st by (simp add: v_add_def v_and_def v_cmpeq_def vectorise_def)
  with l st show ?thesis
    by (simp add: n_cap_inv_def v_add_def v_and_def v_cmpeq_def vectorise_def)
qed

lemma advance_target_n_cap:
  assumes "n_cap_inv st" "advance_target inp s st = Inr st'"
  shows "n_cap_inv st'"
proof -
  from assms(1) have l: "length (targetwin st) = band_size" "length (qualitieswin st) = band_size"
    by (simp_all add: n_cap_inv_def)
  from assms(2) obtain a b where
    "st' = st\<lparr> targetwin := v_insert (v_left_shift score_bytes (targetwin st)) a 0,
               qualitieswin := v_insert (v_left_shift score_bytes (qualitieswin st)) b 0 \<rparr>"
    by (auto simp: advance_target_def Let_def bnd_eq_Inr split: if_splits)
  with assms(1) shift_in_first [OF l(1)] shift_in_first [OF l(2)] show ?thesis
    by (simp add: n_cap_inv_def)
qed

lemma advance_truth_n_cap:
  assumes "n_cap_inv st" "advance_truth inp sh s st = Inr st'"
  shows "n_cap_inv st'"
proof -
  from assms(1) have l: "length (truthwin st) = band_size" "length (truthnqual st) = band_size"
    and c: "\<And>k. k < band_size \<Longrightarrow> truthnqual st ! k =
        (if truthwin st ! k = short_of_char CHR ''N'' then n_score else infinity)"
    by (simp_all add: n_cap_inv_def)
  from assms(2) obtain base where
    tw: "truthwin st' = v_insert (v_right_shift score_bytes (truthwin st)) (short_of_char base) (int band_size - 1)"
    and tn: "truthnqual st' = v_insert (v_right_shift score_bytes (truthnqual st))
               (if base = CHR ''N'' then n_score else infinity) (int band_size - 1)"
    and rest: "targetwin st' = targetwin st" "qualitieswin st' = qualitieswin st"
    by (auto simp: advance_truth_def Let_def bnd_eq_Inr)
  have "truthnqual st' ! k = (if truthwin st' ! k = short_of_char CHR ''N'' then n_score else infinity)"
    if "k < band_size" for k
  proof (cases "k = band_size - 1")
    case True
    with that show ?thesis unfolding tw tn
      by (simp add: shift_in_last [OF l(1)] shift_in_last [OF l(2)] short_of_char_inj)
  next
    case False
    with that have "Suc k < band_size" by simp
    from c [OF this] False that show ?thesis unfolding tw tn
      by (simp add: shift_in_last [OF l(1)] shift_in_last [OF l(2)])
  qed
  with assms(1) rest show ?thesis unfolding n_cap_inv_def tw tn
    by (simp add: shift_in_last [OF l(1)] shift_in_last [OF l(2)])
qed

lemma word_sle_smin: "smin a b \<le>s b"
  by (simp add: smin_def word_sle_eq word_sless_alt)

lemma emission_capped:
  assumes "n_cap_inv st" "k < band_size"
  shows "emission st ! k \<le>s truthnqual st ! k"
  using assms
  by (simp add: emission_def v_min_def v_andnot_def v_cmpeq_def n_cap_inv_def word_sle_smin)

subsection \<open>Evaluation rules\<close>

lemma bnd_weak_cong: "r = r' \<Longrightarrow> bnd r f = bnd r' f" by simp

text \<open>Evaluation of the eight-lane operations, lane by lane.\<close>

lemma vectorise_lanes: "vectorise x = [x, x, x, x, x, x, x, x]"
  by (simp add: vectorise_def band_size_def eval_nat_numeral)
lemma vectorise_zero_set_last_lanes: "vectorise_zero_set_last x = [x, 0, 0, 0, 0, 0, 0, 0]"
  by (simp add: vectorise_zero_set_last_def band_size_def eval_nat_numeral)
lemma v_insert_first: "v_insert (x # xs) y 0 = y # xs"
  by (simp add: v_insert_def)
lemma v_insert_last: "v_insert [a, b, c, d, e, f, g, h] y 7 = [a, b, c, d, e, f, g, y]"
  by (simp add: v_insert_def band_size_def eval_nat_numeral)
lemma v_left_shift_lanes: "v_left_shift 2 [a, b, c, d, e, f, g, h] = [0, a, b, c, d, e, f, g]"
  using v_left_shift_lane [of "[a, b, c, d, e, f, g, h]"] by (simp add: score_bytes_def)
lemma v_right_shift_lanes: "v_right_shift 2 [a, b, c, d, e, f, g, h] = [b, c, d, e, f, g, h, 0]"
  using v_right_shift_lane [of a "[b, c, d, e, f, g, h]"] by (simp add: score_bytes_def)
lemma v_add_lanes: "v_add [a0,a1,a2,a3,a4,a5,a6,a7] [b0,b1,b2,b3,b4,b5,b6,b7] = [a0+b0,a1+b1,a2+b2,a3+b3,a4+b4,a5+b5,a6+b6,a7+b7]"
  by (simp add: v_add_def)
lemma v_and_lanes: "v_and [a0,a1,a2,a3,a4,a5,a6,a7] [b0,b1,b2,b3,b4,b5,b6,b7] = [a0 AND b0,a1 AND b1,a2 AND b2,a3 AND b3,a4 AND b4,a5 AND b5,a6 AND b6,a7 AND b7]"
  by (simp add: v_and_def)
lemma v_andnot_lanes: "v_andnot [a0,a1,a2,a3,a4,a5,a6,a7] [b0,b1,b2,b3,b4,b5,b6,b7] = [NOT a0 AND b0,NOT a1 AND b1,NOT a2 AND b2,NOT a3 AND b3,NOT a4 AND b4,NOT a5 AND b5,NOT a6 AND b6,NOT a7 AND b7]"
  by (simp add: v_andnot_def)
lemma v_or_lanes: "v_or [a0,a1,a2,a3,a4,a5,a6,a7] [b0,b1,b2,b3,b4,b5,b6,b7] = [a0 OR b0,a1 OR b1,a2 OR b2,a3 OR b3,a4 OR b4,a5 OR b5,a6 OR b6,a7 OR b7]"
  by (simp add: v_or_def)
lemma v_cmpeq_lanes: "v_cmpeq [a0,a1,a2,a3,a4,a5,a6,a7] [b0,b1,b2,b3,b4,b5,b6,b7] =
  [if a0 = b0 then - 1 else 0, if a1 = b1 then - 1 else 0, if a2 = b2 then - 1 else 0, if a3 = b3 then - 1 else 0,
   if a4 = b4 then - 1 else 0, if a5 = b5 then - 1 else 0, if a6 = b6 then - 1 else 0, if a7 = b7 then - 1 else 0]"
  by (simp add: v_cmpeq_def)
lemma v_min_lanes: "v_min [a0,a1,a2,a3,a4,a5,a6,a7] [b0,b1,b2,b3,b4,b5,b6,b7] = [smin a0 b0,smin a1 b1,smin a2 b2,smin a3 b3,smin a4 b4,smin a5 b5,smin a6 b6,smin a7 b7]"
  by (simp add: v_min_def)
lemma v_left_shift_words_lanes: "v_left_shift_words k [a0,a1,a2,a3,a4,a5,a6,a7] = [push_bit k a0,push_bit k a1,push_bit k a2,push_bit k a3,push_bit k a4,push_bit k a5,push_bit k a6,push_bit k a7]"
  by (simp add: v_left_shift_words_def)
lemma three_lanes: "three = [3, 3, 3, 3, 3, 3, 3, 3]"
  by (simp add: three_def vectorise_lanes)
lemma shifted_three: "v_right_shift 1 [3, 3, 3, 3, 3, 3, 3, 3] = [0x300, 0x300, 0x300, 0x300, 0x300, 0x300, 0x300, 0]"
  by (simp add: v_right_shift_def to_bytes_def)
lemma label_m_lanes: "label_m [a0,a1,a2,a3,a4,a5,a6,a7] = [NOT 3 AND a0,NOT 3 AND a1,NOT 3 AND a2,NOT 3 AND a3,NOT 3 AND a4,NOT 3 AND a5,NOT 3 AND a6,NOT 3 AND a7]"
  by (simp add: label_m_def three_lanes v_andnot_lanes)
lemma label_i_lanes: "label_i [a0,a1,a2,a3,a4,a5,a6,a7] = [NOT 3 AND a0 OR 0x300,NOT 3 AND a1 OR 0x300,NOT 3 AND a2 OR 0x300,NOT 3 AND a3 OR 0x300,NOT 3 AND a4 OR 0x300,NOT 3 AND a5 OR 0x300,NOT 3 AND a6 OR 0x300,NOT 3 AND a7]"
  by (simp only: label_i_def shifted_three three_lanes v_andnot_lanes v_or_lanes) simp
lemma label_d_lanes: "label_d [a0,a1,a2,a3,a4,a5,a6,a7] = [NOT 3 AND a0 OR 3,NOT 3 AND a1 OR 3,NOT 3 AND a2 OR 3,NOT 3 AND a3 OR 3,NOT 3 AND a4 OR 3,NOT 3 AND a5 OR 3,NOT 3 AND a6 OR 3,NOT 3 AND a7 OR 3]"
  by (simp add: label_d_def three_lanes v_andnot_lanes v_or_lanes)
lemma pack_labels_lanes: "pack_labels [a0,a1,a2,a3,a4,a5,a6,a7] [b0,b1,b2,b3,b4,b5,b6,b7] [c0,c1,c2,c3,c4,c5,c6,c7] =
   [((3 AND a0) OR push_bit 2 (3 AND b0)) OR push_bit 6 (3 AND c0),
    ((3 AND a1) OR push_bit 2 (3 AND b1)) OR push_bit 6 (3 AND c1),
    ((3 AND a2) OR push_bit 2 (3 AND b2)) OR push_bit 6 (3 AND c2),
    ((3 AND a3) OR push_bit 2 (3 AND b3)) OR push_bit 6 (3 AND c3),
    ((3 AND a4) OR push_bit 2 (3 AND b4)) OR push_bit 6 (3 AND c4),
    ((3 AND a5) OR push_bit 2 (3 AND b5)) OR push_bit 6 (3 AND c5),
    ((3 AND a6) OR push_bit 2 (3 AND b6)) OR push_bit 6 (3 AND c6),
    ((3 AND a7) OR push_bit 2 (3 AND b7)) OR push_bit 6 (3 AND c7)]"
  by (simp only: pack_labels_def three_lanes v_and_lanes v_or_lanes v_left_shift_words_lanes insert_label_def delete_label_def) simp
lemma replicate_num: "replicate (numeral n) x = x # replicate (pred_numeral n) x"
  by (simp add: numeral_eq_Suc)
lemma rd_Nil: "rd [] i = Inl OutOfBounds" by (simp add: rd_def)
lemma rd_Cons: "rd (x # xs) i = (if i = 0 then Inr x else if 0 < i then rd xs (i - 1) else Inl OutOfBounds)"
  by (auto simp: rd_def nat_diff_distrib' nth_Cons')
lemma wr_Nil: "wr [] i v = Inl OutOfBounds" by (simp add: wr_def)
lemma wr_Cons: "wr (x # xs) i v = (if i = 0 then Inr (v # xs) else if 0 < i then bnd (wr xs (i - 1) v) (\<lambda>ys. Inr (x # ys)) else Inl OutOfBounds)"
  by (auto simp: wr_def list_update_code nat_diff_distrib' split: nat.splits)

lemmas ev_backend =
  infinity_def trace_bits_def n_score_def max_n_quality_def bitmask_def score_bytes_def band_size_def
  vectorise_lanes vectorise_zero_set_last_lanes vectorise_reverse_def v_extract_def v_insert_first v_insert_last
  v_add_lanes v_and_lanes v_andnot_lanes v_or_lanes v_cmpeq_lanes v_min_lanes v_left_shift_lanes
  v_right_shift_lanes vectorise_reverse_lshift_def update_gap_penalty_def replicate_num
  rd_Nil rd_Cons wr_Nil wr_Cons short_of_char_def lshift_int8_def smin_def word_sless_alt Let_def

lemmas ev_score = ev_backend align_def shape_ok_def init_band_def
  nuc_prior_vec_def advance_target_def advance_truth_def emission_def even_half_def odd_half_def
  loop_body_def final_score_def main_loop.simps

lemmas ev_traced = ev_backend align_alignment_def shape_ok_def init_band_def
  nuc_prior_vec_def advance_target_def advance_truth_def emission_def final_score_def
  init_traced_def band.extend_def even_half_tb_def odd_half_tb_def loop_body_tb_def
  pack_labels_lanes label_m_lanes label_i_lanes label_d_lanes main_loop_tb.simps
  reconstruct_cases bp_word_def walk_start_def finish_def walk_loop.simps walk_step_def label_at_def
  match_label_def insert_label_def delete_label_def gap_label_def overflow_result_def
  rd_buf_def wr_buf_def reverse_loop.simps zero_buffer_def

subsection \<open>Null buffers\<close>

text \<open>Neither overload looks at the buffer pointers before the backtrace writes through
  them: when the walk has something to write, or the terminator is written, a null
  buffer is dereferenced.\<close>

lemma walk_step_null:
  assumes "walk_step tr tg flat w = Inr w'"
  shows "walk_step tr tg flat (w\<lparr> w_align1 := None, w_align2 := None \<rparr>) = Inl NullPointer"
proof -
  from assms obtain bp where bp: "bp_word flat (w_s w) (w_i w) = Inr bp"
    by (auto simp: walk_step_def bnd_eq_Inr)
  consider (M) "w_state w = match_label" | (I) "w_state w = insert_label"
    | (D) "w_state w \<noteq> match_label" "w_state w \<noteq> insert_label" by blast
  then show ?thesis
  proof cases
    case M
    with assms bp obtain c1 where "rd tr (w_x w - 1) = Inr c1"
      by (auto simp: walk_step_def Let_def bnd_eq_Inr)
    with M bp show ?thesis by (simp add: walk_step_def Let_def wr_buf_def)
  next
    case I
    with bp show ?thesis
      by (simp add: walk_step_def Let_def wr_buf_def match_label_def insert_label_def)
  next
    case D
    with assms bp obtain c1 where "rd tr (w_x w - 1) = Inr c1"
      by (auto simp: walk_step_def Let_def bnd_eq_Inr)
    with D bp show ?thesis by (simp add: walk_step_def Let_def wr_buf_def)
  qed
qed

lemma walk_start_null:
  "walk_start inp msi bp None None = (walk_start inp msi bp a1 a2)\<lparr> w_align1 := None, w_align2 := None \<rparr>"
  by (simp add: walk_start_def)

lemma reconstruct_null:
  assumes rec: "reconstruct inp ms msi bps (Some b1) (Some b2) = Inr r" and ok: "0 \<le> score r"
  shows "reconstruct inp ms msi bps None None = Inl NullPointer"
proof -
  let ?flat = "concat bps"
  have msi: "\<not> msi < 0" using rec ok
    by (auto simp: reconstruct_cases overflow_result_def split: if_splits)
  with rec ok obtain bp r' where
    bp: "bp_word ?flat msi (msi div 2 - target_len inp) = Inr bp" and
    wl: "walk_loop (truth inp) (target inp) ?flat (walk_start inp msi bp (Some b1) (Some b2)) = Inr r'" and
    fin: "finish ms r' = Inr r"
    by (auto simp: reconstruct_cases overflow_result_def bnd_eq_Inr split: if_splits sum.splits)
  let ?w = "walk_start inp msi bp (Some b1) (Some b2)"
  let ?n = "?w\<lparr> w_align1 := None, w_align2 := None \<rparr>"
  have "bnd (walk_loop (truth inp) (target inp) ?flat ?n) (finish ms) = Inl NullPointer"
  proof (cases "w_y ?w > 0")
    case False
    then have "walk_loop (truth inp) (target inp) ?flat ?n = Inr (Walked ?n)"
      by (simp add: walk_loop.simps [of _ _ _ ?n])
    then show ?thesis by (simp add: finish_def wr_buf_def)
  next
    case y: True
    have no: "\<not> (w_s ?w < 0 \<or> w_i ?w < 0)"
    proof
      assume "w_s ?w < 0 \<or> w_i ?w < 0"
      with y wl have "r' = Overflowed ?w" by (simp add: walk_loop.simps [of _ _ _ ?w])
      with fin ok show False by (auto simp: finish_def overflow_result_def)
    qed
    with y wl obtain w1 where "walk_step (truth inp) (target inp) ?flat ?w = Inr w1"
      by (auto simp: walk_loop.simps [of _ _ _ ?w] split: sum.splits)
    from walk_step_null [OF this] y no
    have "walk_loop (truth inp) (target inp) ?flat ?n = Inl NullPointer"
      by (simp add: walk_loop.simps [of _ _ _ ?n])
    then show ?thesis by simp
  qed
  with msi bp show ?thesis
    by (simp add: reconstruct_cases walk_start_null [of inp msi bp "Some b1" "Some b2"])
qed

lemma align_alignment_null:
  assumes "align_alignment ndebug inp (Some b1) (Some b2) = Inr r" "0 \<le> score r"
  shows "align_alignment ndebug inp None None = Inl NullPointer"
proof -
  from align_alignment_Inr [OF assms(1)] obtain st0 and st :: traced_band where
    s: "ndebug \<or> shape_ok inp" "init_band inp = Inr st0"
       "main_loop_tb inp 0 (init_traced inp st0) = Inr st"
       "reconstruct inp (minscore st) (minscoreidx st) (backpointers st) (Some b1) (Some b2) = Inr r"
    by blast
  from reconstruct_null [OF s(4) assms(2)] s(1,2,3) show ?thesis
    by (auto simp: align_alignment_def)
qed

subsection \<open>Trace labels\<close>

















































subsection \<open>Runs of the two overloads on the inputs\<close>

text \<open>Each run is evaluated by rewriting with the definitions and the lane rules.\<close>

lemma test3_score: "align ndebug test3 = Inr 71"
  by (simp add: ev_score test3_def cong: bnd_weak_cong)

lemma test3_alignment:
  "align_alignment ndebug test3 (zero_buffer 39) (zero_buffer 39) =
     Inr \<lparr> score = 71, first_pos = 5,
           align1 = Some (''CGAAGC'' @ replicate 33 (CHR 0x00)),
           align2 = Some (''CG--GC'' @ replicate 33 (CHR 0x00)) \<rparr>"
  by (simp add: ev_traced test3_def cong: bnd_weak_cong)

lemma insertion_score: "align ndebug insertion_input = Inr 14"
  by (simp add: ev_score insertion_input_def cong: bnd_weak_cong)

lemma insertion_alignment:
  "align_alignment ndebug insertion_input (zero_buffer 39) (zero_buffer 39) =
     Inr \<lparr> score = 21, first_pos = 0,
           align1 = Some (''ACGTACG'' @ replicate 32 (CHR 0x00)),
           align2 = Some (''AC-T--G'' @ replicate 32 (CHR 0x00)) \<rparr>"
  by (simp add: ev_traced insertion_input_def cong: bnd_weak_cong)

lemma overflow_alignment:
  "align_alignment ndebug overflow_input (zero_buffer 39) (zero_buffer 39) =
     Inr \<lparr> score = - 1, first_pos = - 1,
           align1 = Some (''AT'' @ replicate 37 (CHR 0x00)),
           align2 = Some (''--'' @ replicate 37 (CHR 0x00)) \<rparr>"
  by (simp add: ev_traced overflow_input_def cong: bnd_weak_cong)

lemma dash_alignment:
  "align_alignment ndebug dash_input (zero_buffer 33) (zero_buffer 33) =
     Inr \<lparr> score = 40, first_pos = 0,
           align1 = Some (''A'' @ replicate 32 (CHR 0x00)),
           align2 = Some (''-'' @ replicate 32 (CHR 0x00)) \<rparr>"
  by (simp add: ev_traced dash_input_def cong: bnd_weak_cong)


lemma even_start_score: "align ndebug even_start_input = Inr 19"
  by (simp add: ev_score even_start_input_def cong: bnd_weak_cong)

lemma odd_start_score: "align ndebug odd_start_input = Inr 14"
  by (simp add: ev_score odd_start_input_def cong: bnd_weak_cong)

lemma n_init: "init_band n_input = Inr n_state"
  by (simp add: ev_backend init_band_def n_input_def n_state_def cong: bnd_weak_cong)

lemma short_truth_score: "align True short_truth_input = Inr 71"
  by (simp add: ev_score short_truth_input_def test3_def cong: bnd_weak_cong)

section \<open>The claims\<close>

subsection \<open>C1: the score-only overload and the minimum penalty\<close>

text \<open>
  C1 says that the score-only overload returns the minimum total penalty over the
  alignments of the target that stay in the band. The code does not: on
  \<open>even_start_input\<close> it returns 19, while the alignment that starts at truth offset 4,
  inserts the first target base and matches the other three lies in the band and costs
  14 (gap open 10 plus \<open>nuc_prior\<close> 4). On \<open>odd_start_input\<close>, which is the same problem
  moved by one truth position, the code does return 14 (in a build with assertions and in
  one without, \<open>ndebug\<close>). The zero score that the init
  mask puts into \<open>_m1\<close> is only ever followed by a match, the one it puts into \<open>_m2\<close> is
  also read by the insertion and deletion updates of the even half step.
\<close>

theorem even_start_insertion_missed:
  "align ndebug even_start_input = Inr 19 \<and>
   spec_alignment_penalty even_start_input None 4 0 [Insertion, Match, Match, Match] = Some 14 \<and>
   align ndebug odd_start_input = Inr 14 \<and>
   spec_alignment_penalty odd_start_input None 5 0 [Insertion, Match, Match, Match] = Some 14"
proof -
  have "spec_alignment_penalty even_start_input None 4 0 [Insertion, Match, Match, Match] = Some 14"
    by (simp add: even_start_input_def in_band_def band_size_def edit_cost_def gap_at_def)
  moreover
  have "spec_alignment_penalty odd_start_input None 5 0 [Insertion, Match, Match, Match] = Some 14"
    by (simp add: odd_start_input_def in_band_def band_size_def edit_cost_def gap_at_def)
  ultimately show ?thesis using even_start_score odd_start_score by simp
qed

subsection \<open>C2: the two overloads return the same score\<close>

text \<open>
  C2 says that the score of the alignment overload equals the score of the score-only
  overload on every valid input. The unit tests require the same (\<open>CHECK_ALIGNER\<close>
  compares both), but on \<open>insertion_input\<close> the score-only overload returns 14 and the
  alignment overload 21, with an alignment of three gaps. The cause is the label
  assignment of the insertion vector, see C7.
\<close>

theorem overloads_disagree:
  "align ndebug insertion_input = Inr 14 \<and>
   align_alignment ndebug insertion_input (zero_buffer 39) (zero_buffer 39) =
     Inr \<lparr> score = 21, first_pos = 0,
           align1 = Some (''ACGTACG'' @ replicate 32 (CHR 0x00)),
           align2 = Some (''AC-T--G'' @ replicate 32 (CHR 0x00)) \<rparr>"
  using insertion_score insertion_alignment by simp

subsection \<open>C3: the alignment strings spell the target and a stretch of the truth\<close>

text \<open>
  C3 as stated fails when a sequence itself holds the gap character: for the target
  \<open>-\<close> the query alignment string is \<open>-\<close>, and nothing is left of it without the gaps.
\<close>

theorem gap_character_in_target:
  "align_alignment False dash_input (zero_buffer 33) (zero_buffer 33) =
     Inr \<lparr> score = 40, first_pos = 0,
           align1 = Some (''A'' @ replicate 32 (CHR 0x00)),
           align2 = Some (''-'' @ replicate 32 (CHR 0x00)) \<rparr> \<and>
   align_alignment True dash_input (zero_buffer 33) (zero_buffer 33) =
     Inr \<lparr> score = 40, first_pos = 0,
           align1 = Some (''A'' @ replicate 32 (CHR 0x00)),
           align2 = Some (''-'' @ replicate 32 (CHR 0x00)) \<rparr> \<and>
   strip_gaps (c_str (''-'' @ replicate 32 (CHR 0x00))) \<noteq> target dash_input"
  using dash_alignment [of False] dash_alignment [of True]
  by (simp add: strip_gaps_def c_str_def gap_label_def dash_input_def)

text \<open>
  C3, amended: when the alignment overload succeeds on a truth and a target that hold
  neither the gap character nor the terminator, the query string without its gaps
  is the whole target, and the truth string without its gaps is the stretch of the
  truth that starts at \<open>first_pos\<close> and has as many characters as the string has
  non-gap characters.
\<close>

theorem alignment_consistency:
  assumes run: "align_alignment ndebug inp (Some b1) (Some b2) = Inr r"
      and ok: "0 \<le> score r"
      and ng: "gap_label \<notin> set (truth inp) \<union> set (target inp)"
      and nz: "CHR 0x00 \<notin> set (truth inp) \<union> set (target inp)"
  shows "\<exists>a1 a2. align1 r = Some a1 \<and> align2 r = Some a2 \<and>
           strip_gaps (c_str a2) = take (nat (target_len inp)) (target inp) \<and>
           strip_gaps (c_str a1) =
             take (length (strip_gaps (c_str a1))) (drop (nat (first_pos r)) (truth inp))"
proof -
  let ?tr = "truth inp" and ?tg = "target inp" and ?tl = "target_len inp"
  from align_alignment_Inr [OF run] obtain st :: traced_band where
    rec: "reconstruct inp (minscore st) (minscoreidx st) (backpointers st) (Some b1) (Some b2) = Inr r"
    by blast
  from reconstruct_success [OF rec ok] obtain e1 e2 w where
    inv: "walk_inv ?tr ?tg b1 b2 (minscoreidx st - ?tl) ?tl e1 e2 w" and
    y: "w_y w \<le> 0" and fp: "first_pos r = w_x w" and
    a1: "align1 r = Some (rev e1 @ CHR 0x00 # drop (Suc (length e1)) b1)" and
    a2: "align2 r = Some (rev e2 @ CHR 0x00 # drop (Suc (length e2)) b2)"
    by blast
  from inv have i1: "emitted_inv ?tr b1 (minscoreidx st - ?tl) e1 (w_x w) (w_alnidx w) (w_align1 w)"
    and i2: "emitted_inv ?tg b2 ?tl e2 (w_y w) (w_alnidx w) (w_align2 w)"
    by (simp_all add: walk_inv_def)
  from emitted_no_nul [OF i1] emitted_no_nul [OF i2] nz
  have c1: "c_str (rev e1 @ CHR 0x00 # drop (Suc (length e1)) b1) = rev e1"
    and c2: "c_str (rev e2 @ CHR 0x00 # drop (Suc (length e2)) b2) = rev e2"
    by (simp_all add: c_str_terminated)
  from i2 ng have s2: "strip_gaps e2 = rev (drop (nat (w_y w)) (take (nat ?tl) ?tg))"
    by (simp add: emitted_inv_def)
  from y have "nat (w_y w) = 0" by simp
  with s2 have q: "strip_gaps (rev e2) = take (nat ?tl) ?tg"
    by (simp add: strip_gaps_rev)
  from i1 ng have s1: "strip_gaps e1 = rev (drop (nat (w_x w)) (take (nat (minscoreidx st - ?tl)) ?tr))"
    by (simp add: emitted_inv_def)
  then have "strip_gaps (rev e1) = take (nat (minscoreidx st - ?tl) - nat (w_x w)) (drop (nat (w_x w)) ?tr)"
    by (simp add: strip_gaps_rev drop_take)
  then have t: "strip_gaps (rev e1) = take (length (strip_gaps (rev e1))) (drop (nat (w_x w)) ?tr)"
    by (metis append_eq_conv_conj append_take_drop_id)
  from a1 a2 c1 c2 q t fp show ?thesis by simp
qed

text \<open>The amended C3 on the third unit test: the strings \<open>CG--GC\<close> and \<open>CGAAGC\<close>.\<close>

theorem alignment_consistency_witness:
  "align_alignment False test3 (Some (replicate 39 (CHR 0x00))) (Some (replicate 39 (CHR 0x00))) =
     Inr \<lparr> score = 71, first_pos = 5,
           align1 = Some (''CGAAGC'' @ replicate 33 (CHR 0x00)),
           align2 = Some (''CG--GC'' @ replicate 33 (CHR 0x00)) \<rparr> \<and>
   gap_label \<notin> set (truth test3) \<union> set (target test3) \<and>
   CHR 0x00 \<notin> set (truth test3) \<union> set (target test3) \<and>
   strip_gaps (c_str (''CG--GC'' @ replicate 33 (CHR 0x00))) = take (nat (target_len test3)) (target test3) \<and>
   strip_gaps (c_str (''CGAAGC'' @ replicate 33 (CHR 0x00))) =
     take (length (strip_gaps (c_str (''CGAAGC'' @ replicate 33 (CHR 0x00))))) (drop (nat 5) (truth test3))"
proof -
  have run: "align_alignment False test3 (Some (replicate 39 (CHR 0x00))) (Some (replicate 39 (CHR 0x00))) =
     Inr \<lparr> score = 71, first_pos = 5,
           align1 = Some (''CGAAGC'' @ replicate 33 (CHR 0x00)),
           align2 = Some (''CG--GC'' @ replicate 33 (CHR 0x00)) \<rparr>"
    using test3_alignment [of False] by (simp only: zero_buffer_def)
  have ng: "gap_label \<notin> set (truth test3) \<union> set (target test3)"
    and nz: "CHR 0x00 \<notin> set (truth test3) \<union> set (target test3)"
    by (simp_all add: test3_def gap_label_def)
  from alignment_consistency [OF run _ ng nz] run ng nz show ?thesis by simp
qed

subsection \<open>C4: the overflow return\<close>

text \<open>
  C4 as stated fails in its last part: the overflow return writes nothing into the
  buffers. On \<open>overflow_input\<close> the walk has written two characters into each buffer
  before it finds the lane index out of range, and both buffers are handed back
  starting with them.
\<close>

theorem overflow_leaves_emitted_characters:
  "align_alignment False overflow_input (zero_buffer 39) (zero_buffer 39) =
     Inr \<lparr> score = - 1, first_pos = - 1,
           align1 = Some (''AT'' @ replicate 37 (CHR 0x00)),
           align2 = Some (''--'' @ replicate 37 (CHR 0x00)) \<rparr> \<and>
   align_alignment True overflow_input (zero_buffer 39) (zero_buffer 39) =
     Inr \<lparr> score = - 1, first_pos = - 1,
           align1 = Some (''AT'' @ replicate 37 (CHR 0x00)),
           align2 = Some (''--'' @ replicate 37 (CHR 0x00)) \<rparr> \<and>
   (''AT'' @ replicate 37 (CHR 0x00)) ! 0 \<noteq> CHR 0x00 \<and>
   (''--'' @ replicate 37 (CHR 0x00)) ! 0 \<noteq> CHR 0x00"
  using overflow_alignment [of False] overflow_alignment [of True] by simp

text \<open>
  C4, amended: on score overflow the alignment overload returns \<open>-1\<close> and sets
  \<open>first_pos\<close> to \<open>-1\<close>. It writes no terminator and does not reset the buffers: each
  returned buffer has the length it had, and holds the characters the backtrace had
  emitted when it stopped (the same number \<open>n\<close> in both buffers), followed by its
  previous content from index \<open>n\<close> on. The emitted characters are truth characters and
  gap characters in the first buffer and target characters and gap characters in the
  second; without the gaps they spell a stretch of the truth and a stretch of the
  target that ends where the target ends, backwards. So for sequences without \<open>NUL\<close> a
  returned buffer holds \<open>NUL\<close> only where it held \<open>NUL\<close> before the call.

  The first conjunct says this of every return of the overload with a negative score.
  The other two are about \<open>reconstruct\<close>, the code after the main loop, which the
  overload runs on the loop's \<open>minscore\<close>, \<open>minscoreidx\<close> and back-pointer buffer: it
  makes this return with the buffers untouched when the running minimum was never
  updated, and with the buffers as the walk left them when the walk finds \<open>s\<close> or \<open>i\<close>
  out of range.
\<close>

theorem overflow_signal:
  "(\<forall>r. align_alignment ndebug inp (Some b1) (Some b2) = Inr r \<and> score r < 0 \<longrightarrow>
      score r = - 1 \<and> first_pos r = - 1 \<and>
      (\<exists>e1 e2 x0 x y.
         length e1 = length e2 \<and> length e1 \<le> length b1 \<and> length e2 \<le> length b2 \<and>
         align1 r = Some (e1 @ drop (length e1) b1) \<and>
         align2 r = Some (e2 @ drop (length e2) b2) \<and>
         set e1 \<subseteq> insert gap_label (set (truth inp)) \<and>
         set e2 \<subseteq> insert gap_label (set (target inp)) \<and>
         (gap_label \<notin> set (truth inp) \<longrightarrow>
            strip_gaps e1 = rev (drop (nat x) (take (nat x0) (truth inp)))) \<and>
         (gap_label \<notin> set (target inp) \<longrightarrow>
            strip_gaps e2 = rev (drop (nat y) (take (nat (target_len inp)) (target inp))))) \<and>
      (CHR 0x00 \<notin> set (truth inp) \<union> set (target inp) \<longrightarrow>
         (\<exists>a1 a2. align1 r = Some a1 \<and> align2 r = Some a2 \<and>
            length a1 = length b1 \<and> length a2 = length b2 \<and>
            (\<forall>k < length b1. a1 ! k = CHR 0x00 \<longrightarrow> b1 ! k = CHR 0x00) \<and>
            (\<forall>k < length b2. a2 ! k = CHR 0x00 \<longrightarrow> b2 ! k = CHR 0x00)))) \<and>
   (msi < 0 \<longrightarrow>
      reconstruct inp ms msi bps a1 a2 =
        Inr \<lparr> score = - 1, first_pos = - 1, align1 = a1, align2 = a2 \<rparr>) \<and>
   (\<forall>bp w. 0 \<le> msi \<and> bp_word (concat bps) msi (msi div 2 - target_len inp) = Inr bp \<and>
      walk_loop (truth inp) (target inp) (concat bps) (walk_start inp msi bp a1 a2) =
        Inr (Overflowed w) \<longrightarrow>
      reconstruct inp ms msi bps a1 a2 =
        Inr \<lparr> score = - 1, first_pos = - 1, align1 = w_align1 w, align2 = w_align2 w \<rparr>)"
proof (intro conjI allI impI)
  assume "msi < 0"
  then show "reconstruct inp ms msi bps a1 a2 =
      Inr \<lparr> score = - 1, first_pos = - 1, align1 = a1, align2 = a2 \<rparr>"
    by (simp add: reconstruct_cases overflow_result_def)
next
  fix bp w
  assume "0 \<le> msi \<and> bp_word (concat bps) msi (msi div 2 - target_len inp) = Inr bp \<and>
      walk_loop (truth inp) (target inp) (concat bps) (walk_start inp msi bp a1 a2) =
        Inr (Overflowed w)"
  then show "reconstruct inp ms msi bps a1 a2 =
      Inr \<lparr> score = - 1, first_pos = - 1, align1 = w_align1 w, align2 = w_align2 w \<rparr>"
    by (simp add: reconstruct_cases overflow_result_def finish_def)
next
  fix r
  assume a: "align_alignment ndebug inp (Some b1) (Some b2) = Inr r \<and> score r < 0"
  with align_alignment_Inr [of ndebug inp "Some b1" "Some b2" r] obtain st :: traced_band where
    "reconstruct inp (minscore st) (minscoreidx st) (backpointers st) (Some b1) (Some b2) = Inr r"
    by blast
  from reconstruct_overflow_shape [OF this] a obtain e1 e2 w where
    sc: "score r = - 1" "first_pos r = - 1" and
    inv: "walk_inv (truth inp) (target inp) b1 b2 (minscoreidx st - target_len inp) (target_len inp) e1 e2 w" and
    al: "align1 r = w_align1 w" "align2 r = w_align2 w"
    by blast
  from inv have i1: "emitted_inv (truth inp) b1 (minscoreidx st - target_len inp) e1 (w_x w)
        (w_alnidx w) (w_align1 w)"
    and i2: "emitted_inv (target inp) b2 (target_len inp) e2 (w_y w) (w_alnidx w) (w_align2 w)"
    by (simp_all add: walk_inv_def)
  from i1 i2 al have sh:
    "length e1 = length e2" "length e1 \<le> length b1" "length e2 \<le> length b2"
    "align1 r = Some (e1 @ drop (length e1) b1)" "align2 r = Some (e2 @ drop (length e2) b2)"
    "set e1 \<subseteq> insert gap_label (set (truth inp))"
    "set e2 \<subseteq> insert gap_label (set (target inp))"
    "gap_label \<notin> set (truth inp) \<longrightarrow>
       strip_gaps e1 = rev (drop (nat (w_x w)) (take (nat (minscoreidx st - target_len inp)) (truth inp)))"
    "gap_label \<notin> set (target inp) \<longrightarrow>
       strip_gaps e2 = rev (drop (nat (w_y w)) (take (nat (target_len inp)) (target inp)))"
    by (simp_all add: emitted_inv_def)
  show "score r = - 1" "first_pos r = - 1" by (rule sc)+
  from sh show "\<exists>e1 e2 x0 x y.
         length e1 = length e2 \<and> length e1 \<le> length b1 \<and> length e2 \<le> length b2 \<and>
         align1 r = Some (e1 @ drop (length e1) b1) \<and>
         align2 r = Some (e2 @ drop (length e2) b2) \<and>
         set e1 \<subseteq> insert gap_label (set (truth inp)) \<and>
         set e2 \<subseteq> insert gap_label (set (target inp)) \<and>
         (gap_label \<notin> set (truth inp) \<longrightarrow>
            strip_gaps e1 = rev (drop (nat x) (take (nat x0) (truth inp)))) \<and>
         (gap_label \<notin> set (target inp) \<longrightarrow>
            strip_gaps e2 = rev (drop (nat y) (take (nat (target_len inp)) (target inp))))"
    by blast
  assume nz: "CHR 0x00 \<notin> set (truth inp) \<union> set (target inp)"
  from emitted_no_nul [OF i1] emitted_no_nul [OF i2] nz
  have z: "CHR 0x00 \<notin> set e1" "CHR 0x00 \<notin> set e2" by simp_all
  have keep: "(e @ drop (length e) b) ! k = CHR 0x00 \<longrightarrow> b ! k = CHR 0x00"
    if "CHR 0x00 \<notin> set e" "length e \<le> length b" "k < length b" for e b :: string and k
  proof (cases "k < length e")
    case True
    with that(1) have "e ! k \<noteq> CHR 0x00" by (metis nth_mem)
    with True show ?thesis by (simp add: nth_append)
  next
    case False
    with that(2,3) show ?thesis by (simp add: nth_append)
  qed
  from sh(2,3) have l: "length (e1 @ drop (length e1) b1) = length b1"
    "length (e2 @ drop (length e2) b2) = length b2" by simp_all
  from keep [OF z(1) sh(2)] keep [OF z(2) sh(3)] l sh(4,5)
  show "\<exists>a1 a2. align1 r = Some a1 \<and> align2 r = Some a2 \<and>
            length a1 = length b1 \<and> length a2 = length b2 \<and>
            (\<forall>k < length b1. a1 ! k = CHR 0x00 \<longrightarrow> b1 ! k = CHR 0x00) \<and>
            (\<forall>k < length b2. a2 ! k = CHR 0x00 \<longrightarrow> b2 ! k = CHR 0x00)"
    by blast
qed

text \<open>
  The amended C4 at work: the overflow of \<open>overflow_input\<close>, an index that was never
  set, and a walk over a back-pointer buffer of three vectors that leaves the band
  after one deletion.
\<close>

theorem overflow_signal_witness:
  "align_alignment False overflow_input (Some (replicate 39 (CHR 0x00))) (Some (replicate 39 (CHR 0x00))) = Inr overflow_return \<and>
   score overflow_return < 0 \<and>
   CHR 0x00 \<notin> set (truth overflow_input) \<union> set (target overflow_input) \<and>
   score overflow_return = - 1 \<and> first_pos overflow_return = - 1 \<and>
   (\<exists>e1 e2 x0 x y.
         length e1 = length e2 \<and> length e1 \<le> length (replicate 39 (CHR 0x00)) \<and> length e2 \<le> length (replicate 39 (CHR 0x00)) \<and>
         align1 overflow_return = Some (e1 @ drop (length e1) (replicate 39 (CHR 0x00))) \<and>
         align2 overflow_return = Some (e2 @ drop (length e2) (replicate 39 (CHR 0x00))) \<and>
         set e1 \<subseteq> insert gap_label (set (truth overflow_input)) \<and>
         set e2 \<subseteq> insert gap_label (set (target overflow_input)) \<and>
         (gap_label \<notin> set (truth overflow_input) \<longrightarrow>
            strip_gaps e1 = rev (drop (nat x) (take (nat x0) (truth overflow_input)))) \<and>
         (gap_label \<notin> set (target overflow_input) \<longrightarrow>
            strip_gaps e2 = rev (drop (nat y) (take (nat (target_len overflow_input)) (target overflow_input))))) \<and>
   (\<exists>a1 a2. align1 overflow_return = Some a1 \<and> align2 overflow_return = Some a2 \<and>
            length a1 = length (replicate 39 (CHR 0x00)) \<and> length a2 = length (replicate 39 (CHR 0x00)) \<and>
            (\<forall>k < length (replicate 39 (CHR 0x00)). a1 ! k = CHR 0x00 \<longrightarrow> (replicate 39 (CHR 0x00)) ! k = CHR 0x00) \<and>
            (\<forall>k < length (replicate 39 (CHR 0x00)). a2 ! k = CHR 0x00 \<longrightarrow> (replicate 39 (CHR 0x00)) ! k = CHR 0x00)) \<and>
   reconstruct dash_input 0 (- 1) [] (zero_buffer 2) (zero_buffer 2) =
     Inr \<lparr> score = - 1, first_pos = - 1, align1 = zero_buffer 2, align2 = zero_buffer 2 \<rparr> \<and>
   bp_word (concat [vectorise 3, vectorise 3, vectorise 3]) 2 (2 div 2 - target_len dash_input) = Inr 3 \<and>
   walk_loop (truth dash_input) (target dash_input) (concat [vectorise 3, vectorise 3, vectorise 3])
       (walk_start dash_input 2 3 (zero_buffer 2) (zero_buffer 2)) =
     Inr (Overflowed \<lparr> w_s = - 1, w_i = - 1, w_x = 0, w_y = 1, w_alnidx = 1, w_state = 0,
            w_align1 = Some [CHR ''A'', CHR 0x00], w_align2 = Some [CHR ''-'', CHR 0x00] \<rparr>) \<and>
   reconstruct dash_input 0 2 [vectorise 3, vectorise 3, vectorise 3] (zero_buffer 2) (zero_buffer 2) =
     Inr \<lparr> score = - 1, first_pos = - 1,
           align1 = Some [CHR ''A'', CHR 0x00], align2 = Some [CHR ''-'', CHR 0x00] \<rparr>"
proof -
  let ?bps = "[vectorise 3, vectorise 3, vectorise 3]"
  let ?w = "\<lparr> w_s = - 1, w_i = - 1, w_x = 0, w_y = 1, w_alnidx = 1, w_state = 0,
            w_align1 = Some [CHR ''A'', CHR 0x00], w_align2 = Some [CHR ''-'', CHR 0x00] \<rparr>"
  have bp: "bp_word (concat ?bps) 2 (2 div 2 - target_len dash_input) = Inr 3"
    by (simp add: bp_word_def dash_input_def ev_backend)
  have wl: "walk_loop (truth dash_input) (target dash_input) (concat ?bps)
       (walk_start dash_input 2 3 (zero_buffer 2) (zero_buffer 2)) = Inr (Overflowed ?w)"
    by (simp add: dash_input_def ev_backend walk_start_def walk_loop.simps walk_step_def bp_word_def
          label_at_def match_label_def insert_label_def gap_label_def wr_buf_def zero_buffer_def
        cong: bnd_weak_cong)
  have run: "align_alignment False overflow_input (Some (replicate 39 (CHR 0x00))) (Some (replicate 39 (CHR 0x00))) = Inr overflow_return"
    using overflow_alignment [of False] by (simp only: zero_buffer_def overflow_return_def)
  have neg: "score overflow_return < 0" by (simp add: overflow_return_def)
  have nz: "CHR 0x00 \<notin> set (truth overflow_input) \<union> set (target overflow_input)"
    by (simp add: overflow_input_def)
  note a = overflow_signal [where msi = "- 1" and inp = dash_input and ms = 0 and bps = "[]"
      and ?a1.0 = "zero_buffer 2" and ?a2.0 = "zero_buffer 2"]
  note b = overflow_signal [where msi = 2 and inp = dash_input and ms = 0 and bps = ?bps
      and ?a1.0 = "zero_buffer 2" and ?a2.0 = "zero_buffer 2"]
  note c = overflow_signal [where inp = overflow_input and ndebug = False
      and ?b1.0 = "replicate 39 (CHR 0x00)" and ?b2.0 = "replicate 39 (CHR 0x00)",
      THEN conjunct1, THEN spec, THEN mp, OF conjI [OF run neg]]
  note c1 = c [THEN conjunct1] and c2 = c [THEN conjunct2, THEN conjunct1]
    and c3 = c [THEN conjunct2, THEN conjunct2, THEN conjunct1]
    and c4 = c [THEN conjunct2, THEN conjunct2, THEN conjunct2, THEN mp, OF nz]
  from a have 1: "reconstruct dash_input 0 (- 1) [] (zero_buffer 2) (zero_buffer 2) =
     Inr \<lparr> score = - 1, first_pos = - 1, align1 = zero_buffer 2, align2 = zero_buffer 2 \<rparr>"
    by simp
  from b bp wl have 2: "reconstruct dash_input 0 2 ?bps (zero_buffer 2) (zero_buffer 2) =
     Inr \<lparr> score = - 1, first_pos = - 1,
           align1 = Some [CHR ''A'', CHR 0x00], align2 = Some [CHR ''-'', CHR 0x00] \<rparr>"
    by simp
  from run neg nz c1 c2 c3 c4 1 bp wl 2 show ?thesis by (intro conjI)
qed

subsection \<open>C5: the N-cap vector\<close>

text \<open>
  C5 as stated has the two values the wrong way round. After the declarations before
  the loop on \<open>n_input\<close>, whose truth begins with \<open>N\<close>, lane 0 of the truth window holds
  \<open>N\<close> and lane 0 of \<open>_truthnqual\<close> holds \<open>n_score\<close>, and lane 1 holds another base and
  \<open>infinity\<close>.
\<close>

theorem truthnqual_at_n:
  "init_band n_input = Inr n_state \<and>
   truthwin n_state ! 0 = short_of_char CHR ''N'' \<and> truthnqual n_state ! 0 = n_score \<and>
   truthnqual n_state ! 0 \<noteq> infinity \<and>
   truthwin n_state ! 1 \<noteq> short_of_char CHR ''N'' \<and> truthnqual n_state ! 1 = infinity \<and>
   truthnqual n_state ! 1 \<noteq> n_score"
  using n_init
  by (simp add: n_state_def short_of_char_def n_score_def infinity_def trace_bits_def)

text \<open>
  C5, amended: at every point of the band recurrence, in both overloads,
  \<open>_truthnqual\<close> equals \<open>n_score\<close> in every lane whose truth-window base is \<open>N\<close> and
  \<open>infinity\<close> in every other lane, and the emission penalty added to the match vectors
  is in no lane above it (signed comparison). The relation holds after the
  declarations before the loop and is kept by each of the four parts of the loop body.
\<close>

theorem truthnqual_invariant:
  fixes st :: band and tst :: traced_band
  shows "(init_band inp = Inr st \<longrightarrow> n_cap_inv st \<and> n_cap_inv (init_traced inp st)) \<and>
     (n_cap_inv st \<longrightarrow>
        (\<forall>st'. advance_target inp s st = Inr st' \<longrightarrow> n_cap_inv st') \<and>
        n_cap_inv (even_half inp s st) \<and>
        (\<forall>st'. advance_truth inp sh s st = Inr st' \<longrightarrow> n_cap_inv st') \<and>
        n_cap_inv (odd_half inp s st)) \<and>
     (n_cap_inv tst \<longrightarrow>
        (\<forall>st'. advance_target inp s tst = Inr st' \<longrightarrow> n_cap_inv st') \<and>
        (\<forall>st'. even_half_tb inp s tst = Inr st' \<longrightarrow> n_cap_inv st') \<and>
        (\<forall>st'. advance_truth inp sh s tst = Inr st' \<longrightarrow> n_cap_inv st') \<and>
        (\<forall>st'. odd_half_tb inp s tst = Inr st' \<longrightarrow> n_cap_inv st')) \<and>
     (n_cap_inv st \<longrightarrow> (\<forall>k < band_size.
        truthnqual st ! k = (if truthwin st ! k = short_of_char CHR ''N'' then n_score else infinity) \<and>
        emission st ! k \<le>s truthnqual st ! k))"
proof -
  have e: "n_cap_inv (even_half inp s st)" if "n_cap_inv st"
    using that by (simp add: n_cap_inv_def even_half_def Let_def)
  have o: "n_cap_inv (odd_half inp s st)" if "n_cap_inv st"
    using that by (simp add: n_cap_inv_def odd_half_def Let_def)
  have et: "n_cap_inv st'" if "n_cap_inv tst" "even_half_tb inp s tst = Inr st'" for st'
    using that by (auto simp: n_cap_inv_def even_half_tb_def Let_def bnd_eq_Inr)
  have ot: "n_cap_inv st'" if "n_cap_inv tst" "odd_half_tb inp s tst = Inr st'" for st'
    using that by (auto simp: n_cap_inv_def odd_half_tb_def Let_def bnd_eq_Inr)
  have it: "n_cap_inv (init_traced inp st)" if "n_cap_inv st"
    using that by (simp add: n_cap_inv_def init_traced_def band.extend_def)
  have c: "truthnqual st ! k = (if truthwin st ! k = short_of_char CHR ''N'' then n_score else infinity)"
    if "n_cap_inv st" "k < band_size" for k
    using that by (simp add: n_cap_inv_def)
  show ?thesis
    using init_band_n_cap [of inp st] advance_target_n_cap [of st inp s]
      advance_truth_n_cap [of st inp sh s] advance_target_n_cap [of tst inp s]
      advance_truth_n_cap [of tst inp sh s] e o et ot it c emission_capped [of st]
    by (intro conjI impI allI) blast+
qed

text \<open>The amended C5 on \<open>n_input\<close>: its first band state, the first two half steps, and
  lanes 0 and 1 of the cap vector.\<close>

theorem truthnqual_invariant_witness:
  "init_band n_input = Inr n_state \<and> n_cap_inv n_state \<and>
   n_cap_inv (init_traced n_input n_state) \<and>
   n_cap_inv (even_half n_input 0 n_state) \<and> n_cap_inv (odd_half n_input 0 n_state) \<and>
   truthwin n_state ! 0 = short_of_char CHR ''N'' \<and> truthnqual n_state ! 0 = n_score \<and>
   emission n_state ! 0 \<le>s truthnqual n_state ! 0 \<and>
   truthwin n_state ! 1 \<noteq> short_of_char CHR ''N'' \<and> truthnqual n_state ! 1 = infinity \<and>
   emission n_state ! 1 \<le>s truthnqual n_state ! 1"
proof -
  note t = truthnqual_invariant [where inp = n_input and st = n_state and s = 0
      and tst = "init_traced n_input n_state"]
  from t n_init have i: "n_cap_inv n_state" "n_cap_inv (init_traced n_input n_state)"
    by blast+
  from t i have h: "n_cap_inv (even_half n_input 0 n_state)" "n_cap_inv (odd_half n_input 0 n_state)"
    by blast+
  from t i have q: "\<forall>k < band_size.
      truthnqual n_state ! k =
        (if truthwin n_state ! k = short_of_char CHR ''N'' then n_score else infinity) \<and>
      emission n_state ! k \<le>s truthnqual n_state ! k"
    by blast
  have k: "0 < band_size" "1 < band_size" by (simp_all add: band_size_def)
  have w: "truthwin n_state ! 0 = short_of_char CHR ''N''"
    "truthwin n_state ! 1 \<noteq> short_of_char CHR ''N''"
    by (simp_all add: n_state_def short_of_char_def)
  note q0 = q [rule_format, OF k(1)] and q1 = q [rule_format, OF k(2)]
  from q0 w(1) have z: "truthnqual n_state ! 0 = n_score" by simp
  from q0 have z': "emission n_state ! 0 \<le>s truthnqual n_state ! 0" by (rule conjunct2)
  from q1 w(2) have o: "truthnqual n_state ! 1 = infinity" by simp
  from q1 have o': "emission n_state ! 1 \<le>s truthnqual n_state ! 1" by (rule conjunct2)
  from n_init i h w z z' o o' show ?thesis by (intro conjI)
qed

subsection \<open>C6: the number of gaps\<close>




subsection \<open>C7: the back-pointer vector and the state labels\<close>

text \<open>
  C7 says that after each write the low two bits of the insertion vector are set to 1.
  The code computes the constant as \<open>_right_shift<1>(_three)\<close>, a shift of the whole
  register by one byte, which is \<open>0x0300\<close> in lanes 0 to 6 and 0 in lane 7; the low two
  bits of every lane of the insertion vector become 0, and \<open>0x0300\<close> is or-ed into the
  score of seven lanes. Shown on the vector the insertion state starts with; the labels
  of the match and deletion vectors are 0 and 3 as C7 says. This is the defect behind
  C2.
\<close>

theorem insert_label_is_byte_shifted:
  "v_right_shift 1 three = [0x300, 0x300, 0x300, 0x300, 0x300, 0x300, 0x300, 0] \<and>
   label_i (vectorise infinity) = [0x7B00, 0x7B00, 0x7B00, 0x7B00, 0x7B00, 0x7B00, 0x7B00, 0x7800] \<and>
   v_and three (label_i (vectorise infinity)) = vectorise 0 \<and>
   v_and three (label_i (vectorise infinity)) \<noteq> vectorise (of_nat insert_label) \<and>
   v_and three (label_m (vectorise infinity)) = vectorise (of_nat match_label) \<and>
   v_and three (label_d (vectorise infinity)) = vectorise (of_nat delete_label)"
proof -
  have s: "v_right_shift 1 three = [0x300, 0x300, 0x300, 0x300, 0x300, 0x300, 0x300, 0]"
    by (simp only: three_lanes shifted_three)
  have r: "label_i (vectorise infinity) = [0x7B00, 0x7B00, 0x7B00, 0x7B00, 0x7B00, 0x7B00, 0x7B00, 0x7800] \<and>
   v_and three (label_i (vectorise infinity)) = vectorise 0 \<and>
   v_and three (label_i (vectorise infinity)) \<noteq> vectorise (of_nat insert_label) \<and>
   v_and three (label_m (vectorise infinity)) = vectorise (of_nat match_label) \<and>
   v_and three (label_d (vectorise infinity)) = vectorise (of_nat delete_label)"
    by (simp add: vectorise_lanes three_lanes label_i_lanes label_m_lanes label_d_lanes
          v_and_lanes infinity_def insert_label_def match_label_def delete_label_def)
  from s r show ?thesis by blast
qed

subsection \<open>C8: the third unit test\<close>

text \<open>
  C8: on the truth \<open>ACGTACGAAGCTACGTACG\<close>, the target \<open>CGGC\<close>, base qualities 40, gap open
  90 except 70 at truth position 7, gap extend 1 and \<open>nuc_prior\<close> 4, both overloads
  return the score 71, and the alignment overload sets \<open>first_pos\<close> to 5 and leaves the
  strings \<open>CGAAGC\<close> and \<open>CG--GC\<close> in the buffers, whether or not the build keeps
  assertions (\<open>ndebug\<close>).
\<close>

theorem third_unit_test:
  "align ndebug test3 = Inr 71 \<and>
   align_alignment ndebug test3 (zero_buffer 39) (zero_buffer 39) =
     Inr \<lparr> score = 71, first_pos = 5,
           align1 = Some (''CGAAGC'' @ replicate 33 (CHR 0x00)),
           align2 = Some (''CG--GC'' @ replicate 33 (CHR 0x00)) \<rparr> \<and>
   c_str (''CGAAGC'' @ replicate 33 (CHR 0x00)) = ''CGAAGC'' \<and>
   c_str (''CG--GC'' @ replicate 33 (CHR 0x00)) = ''CG--GC''"
  using test3_score test3_alignment by (simp add: c_str_def)

subsection \<open>C9: violated contracts\<close>

text \<open>
  C9 as stated fails. Null buffers are never checked: with null buffers on the third
  unit test the main loop runs and the null pointer is dereferenced by the first write
  of the backtrace, in a build with assertions and in one without. And the shape
  precondition is checked by \<open>assert\<close> only: in a build with \<open>NDEBUG\<close> the score-only
  overload returns the score 71 on \<open>short_truth_input\<close>, which violates the precondition.
\<close>

theorem null_buffers_not_checked:
  "shape_ok test3 \<and> align_alignment False test3 None None = Inl NullPointer \<and>
   align_alignment True test3 None None = Inl NullPointer \<and>
   \<not> shape_ok short_truth_input \<and> align True short_truth_input = Inr 71"
proof -
  have "align_alignment ndebug test3 (Some (replicate 39 (CHR 0x00))) (Some (replicate 39 (CHR 0x00))) =
     Inr \<lparr> score = 71, first_pos = 5,
           align1 = Some (''CGAAGC'' @ replicate 33 (CHR 0x00)),
           align2 = Some (''CG--GC'' @ replicate 33 (CHR 0x00)) \<rparr>" for ndebug
    using test3_alignment [of ndebug] by (simp only: zero_buffer_def)
  from align_alignment_null [OF this] short_truth_score show ?thesis
    by (simp add: shape_ok_def test3_def short_truth_input_def band_size_def)
qed

text \<open>
  C9, amended: in a build that keeps assertions (\<open>NDEBUG\<close> not defined), if the shape
  precondition (\<open>truth_len > band_size\<close> and \<open>truth_len = target_len + 2 * band_size - 1\<close>)
  is violated, each overload fails on its assertion, before the main loop, whatever
  the buffers are, and returns no score. In a build with \<open>NDEBUG\<close> the precondition is
  not checked, and null alignment buffers are not checked in either build.
\<close>

theorem contract_violation:
  "\<not> shape_ok inp \<Longrightarrow>
     align False inp = Inl AssertionFailure \<and> align_alignment False inp a1 a2 = Inl AssertionFailure"
  by (simp add: align_def align_alignment_def)

text \<open>The amended C9 on the third unit test with a truth length that is one too large.\<close>

theorem contract_violation_witness:
  "\<not> shape_ok (test3\<lparr> truth_len := 20 \<rparr>) \<and>
   align False (test3\<lparr> truth_len := 20 \<rparr>) = Inl AssertionFailure \<and>
   align_alignment False (test3\<lparr> truth_len := 20 \<rparr>) (zero_buffer 39) (zero_buffer 39) =
     Inl AssertionFailure"
proof -
  have "\<not> shape_ok (test3\<lparr> truth_len := 20 \<rparr>)"
    by (simp add: shape_ok_def test3_def band_size_def)
  from this contract_violation [OF this] show ?thesis by simp
qed

subsection \<open>C10: the backtrace terminates\<close>

text \<open>
  C10: the backtrace loop terminates for every input and every content of the
  back-pointer buffer. From a state with half-step index \<open>s\<close> the loop is over within
  \<open>s + 3\<close> loop tests (\<open>walk_fuel\<close> counts them and agrees with \<open>walk_loop\<close>, which is total:
  a read or write outside an array ends it with an error); every iteration takes 2
  from \<open>s\<close> in the match state and 1 in the other states; the loop leaves at once when
  \<open>y\<close> is not positive, and when \<open>s\<close> or \<open>i\<close> is negative.
\<close>

theorem backtrace_terminates:
  "walk_fuel (Suc (Suc (nat (w_s w + 1)))) tr tg flat w = Some (walk_loop tr tg flat w) \<and>
   (\<forall>w'. walk_step tr tg flat w = Inr w' \<longrightarrow>
          w_s w' = w_s w - (if w_state w = match_label then 2 else 1)) \<and>
   (w_y w \<le> 0 \<longrightarrow> walk_loop tr tg flat w = Inr (Walked w)) \<and>
   (0 < w_y w \<and> (w_s w < 0 \<or> w_i w < 0) \<longrightarrow> walk_loop tr tg flat w = Inr (Overflowed w))"
  using walk_fuel_enough [of w "Suc (Suc (nat (w_s w + 1)))" tr tg flat]
  by (auto simp: walk_step_s walk_loop.simps [of tr tg flat w])

text \<open>C10 on three states of a walk over a one-word back-pointer buffer.\<close>

theorem backtrace_terminates_witness:
  "walk_step ''A'' ''C'' [0] walk_a = Inr walk_b \<and> w_s walk_b = w_s walk_a - 2 \<and>
   walk_fuel 3 ''A'' ''C'' [0] walk_a = Some (walk_loop ''A'' ''C'' [0] walk_a) \<and>
   w_y walk_b \<le> 0 \<and> walk_loop ''A'' ''C'' [0] walk_b = Inr (Walked walk_b) \<and>
   0 < w_y walk_c \<and> w_s walk_c < 0 \<and> walk_loop ''A'' ''C'' [0] walk_c = Inr (Overflowed walk_c)"
proof -
  have st: "walk_step ''A'' ''C'' [0] walk_a = Inr walk_b"
    by (simp add: walk_step_def walk_a_def walk_b_def bp_word_def band_size_def label_at_def
          match_label_def zero_buffer_def wr_buf_def rd_Cons wr_Cons replicate_num Let_def)
  have y: "w_y walk_b \<le> 0" "0 < w_y walk_c" "w_s walk_c < 0" "w_state walk_a = match_label"
    by (simp_all add: walk_a_def walk_b_def walk_c_def match_label_def)
  have n: "Suc (Suc (nat (w_s walk_a + 1))) = 3"
    by (simp add: walk_a_def)
  note a = backtrace_terminates [of walk_a "''A''" "''C''" "[0]"]
  from a have "walk_fuel (Suc (Suc (nat (w_s walk_a + 1)))) ''A'' ''C'' [0] walk_a =
      Some (walk_loop ''A'' ''C'' [0] walk_a)"
    by (rule conjunct1)
  then have f: "walk_fuel 3 ''A'' ''C'' [0] walk_a = Some (walk_loop ''A'' ''C'' [0] walk_a)"
    unfolding n .
  from a st have "w_s walk_b = w_s walk_a - (if w_state walk_a = match_label then 2 else 1)"
    by blast
  with y(4) have d: "w_s walk_b = w_s walk_a - 2" by simp
  from backtrace_terminates [of walk_b "''A''" "''C''" "[0]"] y(1)
  have b: "walk_loop ''A'' ''C'' [0] walk_b = Inr (Walked walk_b)" by blast
  from backtrace_terminates [of walk_c "''A''" "''C''" "[0]"] y(2,3)
  have c: "walk_loop ''A'' ''C'' [0] walk_c = Inr (Overflowed walk_c)" by blast
  from st d f y(1) b y(2,3) c show ?thesis by (intro conjI)
qed

end
